theory Spec2Isabelle
  imports Main "HOL-Library.Char_ord" "HOL-Library.List_Lexorder" "HOL-Library.AList"
begin

section \<open>Exceptions\<close>

text \<open>
  The exception classes that occur in \<^verbatim>\<open>extension/manager.py\<close>. The two extension errors are
  imported from \<^verbatim>\<open>.utils\<close>; they are ordinary subclasses of \<^verbatim>\<open>Exception\<close>.
  \<open>RaisedException\<close> stands for any other instance of \<^verbatim>\<open>Exception\<close> that extension code
  raises. \<open>SystemExit\<close> and \<open>KeyboardInterrupt\<close> derive from \<^verbatim>\<open>BaseException\<close> only, so
  a clause \<^verbatim>\<open>except Exception\<close> does not catch them.
\<close>

datatype exn =
    ExtensionMetadataError
  | ExtensionModuleNotFound
  | LoaderNotFoundError
  | ImportError
  | KeyError string
  | AttributeError string
  | TypeError string
  | RaisedException string
  | SystemExit
  | KeyboardInterrupt

fun is_Exception :: "exn \<Rightarrow> bool" where
  "is_Exception SystemExit = False"
| "is_Exception KeyboardInterrupt = False"
| "is_Exception _ = True"

section \<open>Extension code and the collaborators\<close>

text \<open>
  A hook is extension code called with the server application; it returns a value
  (\<open>None\<close> is Python's \<^verbatim>\<open>None\<close>) or raises. The host application has the opaque type \<open>'h\<close>,
  the values hooks return the opaque type \<open>'r\<close>.
\<close>

type_synonym ('h, 'r) hook = "'h \<Rightarrow> exn + 'r option"

text \<open>
  An application object (the result of calling the \<^verbatim>\<open>app\<close> entry of a packet) with the
  attributes the manager reads: \<^verbatim>\<open>name\<close>, \<^verbatim>\<open>_link_jupyter_server_extension\<close> and
  \<^verbatim>\<open>_load_jupyter_server_extension\<close>; a hook attribute that the object lacks is \<open>None\<close>.
\<close>

record ('h, 'r) appobj =
  app_name :: string
  app_link :: "('h, 'r) hook option"
  app_load :: "('h, 'r) hook option"

text \<open>An imported module, with the two conventional module-level functions when defined.\<close>

record ('h, 'r) pymodule =
  mod_link :: "('h, 'r) hook option"
  mod_load :: "('h, 'r) hook option"

text \<open>
  A metadata packet: a dictionary read at the keys \<^verbatim>\<open>module\<close>, \<^verbatim>\<open>name\<close> and \<^verbatim>\<open>app\<close>.
  A field is \<open>None\<close> when the key is absent (for \<^verbatim>\<open>app\<close> also when its value is falsy:
  the code tests \<^verbatim>\<open>if app\<close>). The \<^verbatim>\<open>app\<close> entry is a factory before validation and an
  application object afterwards. A factory is called with no arguments; it is modelled by
  the outcome of that call.
\<close>

record 'a packet =
  md_module :: "string option"
  md_name :: "string option"
  md_app :: "'a option"

type_synonym ('h, 'r) factory = "exn + ('h, 'r) appobj"

text \<open>
  The collaborators: \<^verbatim>\<open>importlib.import_module\<close> and \<^verbatim>\<open>utils.get_metadata\<close>, each returning
  its result or the exception it raises.
\<close>

record ('h, 'r) env =
  import_module :: "string \<Rightarrow> exn + ('h, 'r) pymodule"
  get_metadata :: "string \<Rightarrow> exn + ('h, 'r) factory packet list"

text \<open>
  Modelled from the spec: \<^verbatim>\<open>utils.get_loader\<close> is not part of the source at hand. The spec
  says that the load hook is mandatory: when the object searched (application object or
  module) does not define the conventional load function the lookup fails with
  LoaderNotFoundError. The argument is the result of that attribute lookup.
\<close>

definition get_loader :: "('h, 'r) hook option \<Rightarrow> exn + ('h, 'r) hook" where
  "get_loader loc = (case loc of None \<Rightarrow> Inl LoaderNotFoundError | Some loader \<Rightarrow> Inr loader)"

section \<open>Process state\<close>

text \<open>
  What the core does to the outside is recorded in a trace, oldest entry first: calls of
  factories and hooks, and the messages given to the logger of a manager instance.
\<close>

datatype 'h event =
    Call_app string
  | Call_link string 'h
  | Call_load string 'h
  | Log_warning nat exn
  | Log_debug nat string

record ('h, 'r) extension_point =
  pt_metadata :: "('h, 'r) appobj packet"
  pt_module_name :: string
  pt_module :: "('h, 'r) pymodule"

record ('h, 'r) extension_package =
  pkg_name :: string
  pkg_metadata :: "('h, 'r) appobj packet list"
  pkg_extension_points :: "(string \<times> ('h, 'r) extension_point) list"

text \<open>
  \<^verbatim>\<open>_enabled_extensions\<close>, \<^verbatim>\<open>_linked_extensions\<close> (class \<^verbatim>\<open>ExtensionManager\<close>) and
  \<^verbatim>\<open>_linked_points\<close> (class \<^verbatim>\<open>ExtensionPackage\<close>) are assigned in the class bodies and no
  method rebinds them on an instance, so each is one dictionary of the process. The enabled
  dictionary keeps insertion order (an association list with distinct keys); the other two
  are only read with \<^verbatim>\<open>.get(key, False)\<close>. Manager instances are numbered; an instance
  carries no attribute of its own besides its logger.
\<close>

record ('h, 'r) world =
  cls_enabled_extensions :: "(string \<times> ('h, 'r) extension_package) list"
  cls_linked_extensions :: "string \<rightharpoonup> bool"
  cls_linked_points :: "string \<rightharpoonup> bool"
  next_manager :: nat
  trace :: "'h event list"

definition emit :: "'h event \<Rightarrow> ('h, 'r) world \<Rightarrow> ('h, 'r) world" where
  "emit ev w = w\<lparr>trace := trace w @ [ev]\<rparr>"

definition initial_world :: "('h, 'r) world" where
  "initial_world = \<lparr>cls_enabled_extensions = [], cls_linked_extensions = Map.empty,
     cls_linked_points = Map.empty, next_manager = 0, trace = []\<rparr>"

text \<open>A \<^verbatim>\<open>for\<close> loop over a list whose body may raise: the first exception ends the loop.\<close>

fun for_each :: "('a \<Rightarrow> 'w \<Rightarrow> (exn + unit) \<times> 'w) \<Rightarrow> 'a list \<Rightarrow> 'w \<Rightarrow> (exn + unit) \<times> 'w" where
  "for_each body [] w = (Inr (), w)"
| "for_each body (x # xs) w =
     (case body x w of
        (Inl e, w') \<Rightarrow> (Inl e, w')
      | (Inr u, w') \<Rightarrow> for_each body xs w')"

section \<open>ExtensionPoint\<close>

text \<open>
  \<^verbatim>\<open>ExtensionPoint(metadata=m)\<close> runs the validator \<^verbatim>\<open>_valid_metadata\<close> on \<open>m\<close>. traitlets
  stores the keyword values of a constructor first and validates them afterwards, so inside
  the validator \<^verbatim>\<open>self.metadata\<close> is the proposed dictionary itself, and the dictionary
  returned is the one stored. The validator sets \<^verbatim>\<open>_module_name\<close> and \<^verbatim>\<open>_module\<close>.

  The assignment \<^verbatim>\<open>metadata["app"] = app()\<close> writes into the dictionary that the collaborator
  handed out. The environment \<open>E\<close> of a call is the collaborators as they are at that call,
  and the \<^verbatim>\<open>app\<close> entry of a packet is the outcome of calling it: a collaborator that hands
  out the same dictionary a second time is a later environment whose packet holds the
  application object, the outcome of calling which is \<^verbatim>\<open>TypeError\<close>. No statement below
  assumes that two calls see the same environment, except those about \<open>reachable E\<close>.
\<close>

definition valid_metadata ::
  "('h, 'r) env \<Rightarrow> ('h, 'r) factory packet \<Rightarrow> ('h, 'r) world
     \<Rightarrow> (exn + ('h, 'r) extension_point) \<times> ('h, 'r) world" where
  "valid_metadata E proposed w =
     (case md_module proposed of
        None \<Rightarrow> (Inl ExtensionMetadataError, w)
      | Some mn \<Rightarrow>
          (case import_module E mn of
             Inl e \<Rightarrow> (Inl (if e = ImportError then ExtensionModuleNotFound else e), w)
           | Inr m \<Rightarrow>
               (case md_app proposed of
                  None \<Rightarrow>
                    (Inr \<lparr>pt_metadata = \<lparr>md_module = Some mn, md_name = md_name proposed,
                            md_app = None\<rparr>,
                          pt_module_name = mn, pt_module = m\<rparr>, w)
                | Some factory \<Rightarrow>
                    (case factory of
                       Inl e \<Rightarrow> (Inl e, emit (Call_app mn) w)
                     | Inr a \<Rightarrow>
                         (Inr \<lparr>pt_metadata = \<lparr>md_module = Some mn, md_name = md_name proposed,
                                 md_app = Some a\<rparr>,
                               pt_module_name = mn, pt_module = m\<rparr>,
                          emit (Call_app mn) w)))))"

definition ExtensionPoint ::
  "('h, 'r) env \<Rightarrow> ('h, 'r) factory packet \<Rightarrow> ('h, 'r) world
     \<Rightarrow> (exn + ('h, 'r) extension_point) \<times> ('h, 'r) world" where
  "ExtensionPoint E m w = valid_metadata E m w"

definition app :: "('h, 'r) extension_point \<Rightarrow> ('h, 'r) appobj option" where
  "app p = md_app (pt_metadata p)"

definition py_module_name :: "('h, 'r) extension_point \<Rightarrow> string" where
  "py_module_name p = pt_module_name p"

definition name :: "('h, 'r) extension_point \<Rightarrow> string" where
  "name p =
     (case app p of
        Some a \<Rightarrow> app_name a
      | None \<Rightarrow> (case md_name (pt_metadata p) of Some n \<Rightarrow> n | None \<Rightarrow> py_module_name p))"

definition module :: "('h, 'r) extension_point \<Rightarrow> ('h, 'r) pymodule" where
  "module p = pt_module p"

text \<open>Calling a hook: the call is recorded, then the hook returns or raises.\<close>

definition link ::
  "('h, 'r) extension_point \<Rightarrow> 'h \<Rightarrow> ('h, 'r) world \<Rightarrow> (exn + 'r option) \<times> ('h, 'r) world" where
  "link p serverapp w =
     (case app p of
        Some a \<Rightarrow>
          (case app_link a of
             None \<Rightarrow> (Inl (AttributeError ''_link_jupyter_server_extension''), w)
           | Some linker \<Rightarrow> (linker serverapp, emit (Call_link (name p) serverapp) w))
      | None \<Rightarrow>
          (case mod_link (module p) of
             Some linker \<Rightarrow> (linker serverapp, emit (Call_link (name p) serverapp) w)
           | None \<Rightarrow> (Inr None, w)))"

definition load ::
  "('h, 'r) extension_point \<Rightarrow> 'h \<Rightarrow> ('h, 'r) world \<Rightarrow> (exn + 'r option) \<times> ('h, 'r) world" where
  "load p serverapp w =
     (let loc = (case app p of Some a \<Rightarrow> app_load a | None \<Rightarrow> mod_load (module p)) in
      case get_loader loc of
        Inl e \<Rightarrow> (Inl e, w)
      | Inr loader \<Rightarrow> (loader serverapp, emit (Call_load (name p) serverapp) w))"

section \<open>ExtensionPackage\<close>

text \<open>
  The loop of \<^verbatim>\<open>_validate_name\<close>: one point per packet, stored under its name (a later
  point of the same name replaces the earlier one in place).
\<close>

fun build_points ::
  "('h, 'r) env \<Rightarrow> ('h, 'r) factory packet list
     \<Rightarrow> ('h, 'r) appobj packet list \<times> (string \<times> ('h, 'r) extension_point) list
     \<Rightarrow> ('h, 'r) world
     \<Rightarrow> (exn + ('h, 'r) appobj packet list \<times> (string \<times> ('h, 'r) extension_point) list)
          \<times> ('h, 'r) world" where
  "build_points E [] acc w = (Inr acc, w)"
| "build_points E (m # ms) acc w =
     (case ExtensionPoint E m w of
        (Inl e, w') \<Rightarrow> (Inl e, w')
      | (Inr point, w') \<Rightarrow>
          build_points E ms
            (fst acc @ [pt_metadata point], AList.update (name point) point (snd acc)) w')"

definition validate_name ::
  "('h, 'r) env \<Rightarrow> string \<Rightarrow> ('h, 'r) world
     \<Rightarrow> (exn + ('h, 'r) extension_package) \<times> ('h, 'r) world" where
  "validate_name E n w =
     (case get_metadata E n of
        Inl e \<Rightarrow> (Inl (if e = ImportError then ExtensionModuleNotFound else e), w)
      | Inr ms \<Rightarrow>
          (case build_points E ms ([], []) w of
             (Inl e, w') \<Rightarrow> (Inl e, w')
           | (Inr (mds, pts), w') \<Rightarrow>
               (Inr \<lparr>pkg_name = n, pkg_metadata = mds, pkg_extension_points = pts\<rparr>, w')))"

definition ExtensionPackage ::
  "('h, 'r) env \<Rightarrow> string \<Rightarrow> ('h, 'r) world
     \<Rightarrow> (exn + ('h, 'r) extension_package) \<times> ('h, 'r) world" where
  "ExtensionPackage E n w = validate_name E n w"

definition extension_points ::
  "('h, 'r) extension_package \<Rightarrow> (string \<times> ('h, 'r) extension_point) list" where
  "extension_points pkg = pkg_extension_points pkg"

definition link_point ::
  "('h, 'r) extension_package \<Rightarrow> 'h \<Rightarrow> string \<Rightarrow> ('h, 'r) world \<Rightarrow> (exn + unit) \<times> ('h, 'r) world" where
  "link_point pkg serverapp point_name w =
     (let linked = (case cls_linked_points w point_name of Some b \<Rightarrow> b | None \<Rightarrow> False) in
      if \<not> linked then
        (case map_of (extension_points pkg) point_name of
           None \<Rightarrow> (Inl (KeyError point_name), w)
         | Some point \<Rightarrow>
             (case link point serverapp w of
                (Inl e, w') \<Rightarrow> (Inl e, w')
              | (Inr out, w') \<Rightarrow> (Inr (), w')))
      else (Inr (), w))"

definition load_point ::
  "('h, 'r) extension_package \<Rightarrow> 'h \<Rightarrow> string \<Rightarrow> ('h, 'r) world \<Rightarrow> (exn + unit) \<times> ('h, 'r) world" where
  "load_point pkg serverapp point_name w =
     (case map_of (extension_points pkg) point_name of
        None \<Rightarrow> (Inl (KeyError point_name), w)
      | Some point \<Rightarrow>
          (case load point serverapp w of
             (Inl e, w') \<Rightarrow> (Inl e, w')
           | (Inr out, w') \<Rightarrow> (Inr (), w')))"

definition link_all_points ::
  "('h, 'r) extension_package \<Rightarrow> 'h \<Rightarrow> ('h, 'r) world \<Rightarrow> (exn + unit) \<times> ('h, 'r) world" where
  "link_all_points pkg serverapp w =
     for_each (link_point pkg serverapp) (map fst (extension_points pkg)) w"

definition load_all_points ::
  "('h, 'r) extension_package \<Rightarrow> 'h \<Rightarrow> ('h, 'r) world \<Rightarrow> (exn + unit) \<times> ('h, 'r) world" where
  "load_all_points pkg serverapp w =
     for_each (load_point pkg serverapp) (map fst (extension_points pkg)) w"

section \<open>ExtensionManager\<close>

text \<open>
  Creating a manager gives a fresh instance; the constructor (inherited from traitlets)
  touches none of the class-level dictionaries.
\<close>

definition ExtensionManager :: "('h, 'r) world \<Rightarrow> nat \<times> ('h, 'r) world" where
  "ExtensionManager w = (next_manager w, w\<lparr>next_manager := Suc (next_manager w)\<rparr>)"

text \<open>
  \<^verbatim>\<open>dict(sorted(self._enabled_extensions.items()))\<close>: the items are sorted as pairs; the keys
  of a dictionary are distinct strings, so the first components decide every comparison.
\<close>

definition enabled_extensions ::
  "nat \<Rightarrow> ('h, 'r) world \<Rightarrow> (string \<times> ('h, 'r) extension_package) list" where
  "enabled_extensions self w = sort_key fst (cls_enabled_extensions w)"

definition add_extension ::
  "('h, 'r) env \<Rightarrow> nat \<Rightarrow> string \<Rightarrow> ('h, 'r) world \<Rightarrow> (exn + unit) \<times> ('h, 'r) world" where
  "add_extension E self extension_name w =
     (case ExtensionPackage E extension_name w of
        (Inr extpkg, w') \<Rightarrow>
          (Inr (), w'\<lparr>cls_enabled_extensions :=
                       AList.update extension_name extpkg (cls_enabled_extensions w')\<rparr>)
      | (Inl e, w') \<Rightarrow>
          (if is_Exception e then (Inr (), emit (Log_warning self e) w') else (Inl e, w')))"

definition from_jpserver_extensions ::
  "('h, 'r) env \<Rightarrow> nat \<Rightarrow> (string \<times> bool) list \<Rightarrow> ('h, 'r) world
     \<Rightarrow> (exn + unit) \<times> ('h, 'r) world" where
  "from_jpserver_extensions E self jpserver_extensions w =
     for_each (\<lambda>(n, enabled) w. if enabled then add_extension E self n w else (Inr (), w))
       jpserver_extensions w"

definition linked_msg :: "string \<Rightarrow> string" where
  "linked_msg n = ''The '' @ [CHR 0x27] @ n @ [CHR 0x27] @ '' extension was successfully linked.''"

definition link_extension ::
  "nat \<Rightarrow> 'h \<Rightarrow> string \<Rightarrow> ('h, 'r) world \<Rightarrow> (exn + unit) \<times> ('h, 'r) world" where
  "link_extension self serverapp n w =
     (let linked = (case cls_linked_extensions w n of Some b \<Rightarrow> b | None \<Rightarrow> False) in
      case map_of (enabled_extensions self w) n of
        None \<Rightarrow> (Inl (KeyError n), w)
      | Some extension \<Rightarrow>
          if \<not> linked then
            (case link_all_points extension serverapp w of
               (Inr u, w') \<Rightarrow> (Inr (), emit (Log_debug self (linked_msg n)) w')
             | (Inl e, w') \<Rightarrow>
                 (if is_Exception e then (Inr (), emit (Log_warning self e) w') else (Inl e, w')))
          else (Inr (), w))"

text \<open>
  In \<^verbatim>\<open>load_extension\<close> the lookup is \<^verbatim>\<open>.get(name)\<close>: for a missing name the extension is
  \<^verbatim>\<open>None\<close>, and the attribute access \<^verbatim>\<open>None.load_all_points\<close> inside the \<^verbatim>\<open>try\<close> raises
  \<^verbatim>\<open>AttributeError\<close>.
\<close>

definition load_extension ::
  "nat \<Rightarrow> 'h \<Rightarrow> string \<Rightarrow> ('h, 'r) world \<Rightarrow> (exn + unit) \<times> ('h, 'r) world" where
  "load_extension self serverapp n w =
     (case (case map_of (enabled_extensions self w) n of
              None \<Rightarrow> (Inl (AttributeError ''load_all_points''), w)
            | Some extension \<Rightarrow> load_all_points extension serverapp w) of
        (Inr u, w') \<Rightarrow> (Inr (), w')
      | (Inl e, w') \<Rightarrow>
          (if is_Exception e then (Inr (), emit (Log_warning self e) w') else (Inl e, w')))"

definition link_all_extensions ::
  "nat \<Rightarrow> 'h \<Rightarrow> ('h, 'r) world \<Rightarrow> (exn + unit) \<times> ('h, 'r) world" where
  "link_all_extensions self serverapp w =
     for_each (link_extension self serverapp) (map fst (enabled_extensions self w)) w"

definition load_all_extensions ::
  "nat \<Rightarrow> 'h \<Rightarrow> ('h, 'r) world \<Rightarrow> (exn + unit) \<times> ('h, 'r) world" where
  "load_all_extensions self serverapp w =
     for_each (load_extension self serverapp) (map fst (enabled_extensions self w)) w"

section \<open>A small installation, used to run the definitions\<close>

text \<open>
  Five importable modules: \<open>pkgX\<close> defines no hook, \<open>a_ext\<close> links but raises an ordinary
  exception when loaded, \<open>b_ext\<close> links and loads, the hooks of \<open>bad_ext\<close> leave the
  interpreter with \<^verbatim>\<open>sys.exit()\<close>, and \<open>half_ext\<close> does so when linked but loads. Package
  \<open>pkgX\<close> declares an application, package \<open>ab_ext\<close> two points (in the modules \<open>a_ext\<close>
  and \<open>b_ext\<close>), package \<open>broken\<close> a good packet followed by one without \<^verbatim>\<open>module\<close>.
\<close>

definition ex_app :: "(nat, nat) appobj" where
  "ex_app = \<lparr>app_name = ''X'', app_link = Some (\<lambda>h. Inr None), app_load = Some (\<lambda>h. Inr (Some h))\<rparr>"

definition ex_import :: "string \<Rightarrow> exn + (nat, nat) pymodule" where
  "ex_import n =
     (if n = ''pkgX'' then Inr \<lparr>mod_link = None, mod_load = None\<rparr>
      else if n = ''a_ext'' then
        Inr \<lparr>mod_link = Some (\<lambda>h. Inr None), mod_load = Some (\<lambda>h. Inl (RaisedException ''boom''))\<rparr>
      else if n = ''b_ext'' then
        Inr \<lparr>mod_link = Some (\<lambda>h. Inr None), mod_load = Some (\<lambda>h. Inr None)\<rparr>
      else if n = ''bad_ext'' then
        Inr \<lparr>mod_link = Some (\<lambda>h. Inl SystemExit), mod_load = Some (\<lambda>h. Inl SystemExit)\<rparr>
      else if n = ''half_ext'' then
        Inr \<lparr>mod_link = Some (\<lambda>h. Inl SystemExit), mod_load = Some (\<lambda>h. Inr None)\<rparr>
      else Inl ImportError)"

definition ex_metadata :: "string \<Rightarrow> exn + (nat, nat) factory packet list" where
  "ex_metadata n =
     (if n = ''pkgX'' then
        Inr [\<lparr>md_module = Some ''pkgX'', md_name = None, md_app = Some (Inr ex_app)\<rparr>]
      else if n = ''a_ext'' then Inr [\<lparr>md_module = Some ''a_ext'', md_name = None, md_app = None\<rparr>]
      else if n = ''b_ext'' then
        Inr [\<lparr>md_module = Some ''b_ext'', md_name = Some ''b_point'', md_app = None\<rparr>]
      else if n = ''bad_ext'' then
        Inr [\<lparr>md_module = Some ''bad_ext'', md_name = None, md_app = None\<rparr>]
      else if n = ''half_ext'' then
        Inr [\<lparr>md_module = Some ''half_ext'', md_name = None, md_app = None\<rparr>]
      else if n = ''ab_ext'' then
        Inr [\<lparr>md_module = Some ''a_ext'', md_name = Some ''p1'', md_app = None\<rparr>,
             \<lparr>md_module = Some ''b_ext'', md_name = Some ''p2'', md_app = None\<rparr>]
      else if n = ''broken'' then
        Inr [\<lparr>md_module = Some ''a_ext'', md_name = None, md_app = None\<rparr>,
             \<lparr>md_module = None, md_name = Some ''nomodule'', md_app = None\<rparr>]
      else Inl ImportError)"

definition ex_env :: "(nat, nat) env" where
  "ex_env = \<lparr>import_module = ex_import, get_metadata = ex_metadata\<rparr>"

definition ex_world :: "(nat, nat) world" where
  "ex_world = initial_world"

text \<open>
  The scenario of the specification: a manager is given the enabled map
  \<^verbatim>\<open>{"b_ext": True, "a_ext": True, "c_ext": False}\<close>.
\<close>

definition ex_enabled_world :: "(nat, nat) world" where
  "ex_enabled_world =
     snd (from_jpserver_extensions ex_env 0
            [(''b_ext'', True), (''a_ext'', True), (''c_ext'', False)] initial_world)"

definition ex_pkg_a :: "(nat, nat) extension_package" where
  "ex_pkg_a =
     \<lparr>pkg_name = ''a_ext'',
      pkg_metadata = [\<lparr>md_module = Some ''a_ext'', md_name = None, md_app = None\<rparr>],
      pkg_extension_points =
        [(''a_ext'', \<lparr>pt_metadata = \<lparr>md_module = Some ''a_ext'', md_name = None, md_app = None\<rparr>,
            pt_module_name = ''a_ext'',
            pt_module = \<lparr>mod_link = Some (\<lambda>h. Inr None),
                          mod_load = Some (\<lambda>h. Inl (RaisedException ''boom''))\<rparr>\<rparr>)]\<rparr>"

definition ex_pkg_b :: "(nat, nat) extension_package" where
  "ex_pkg_b =
     \<lparr>pkg_name = ''b_ext'',
      pkg_metadata = [\<lparr>md_module = Some ''b_ext'', md_name = Some ''b_point'', md_app = None\<rparr>],
      pkg_extension_points =
        [(''b_point'', \<lparr>pt_metadata = \<lparr>md_module = Some ''b_ext'', md_name = Some ''b_point'',
                                        md_app = None\<rparr>,
            pt_module_name = ''b_ext'',
            pt_module = \<lparr>mod_link = Some (\<lambda>h. Inr None), mod_load = Some (\<lambda>h. Inr None)\<rparr>\<rparr>)]\<rparr>"

definition ex_pkg_bad :: "(nat, nat) extension_package" where
  "ex_pkg_bad =
     \<lparr>pkg_name = ''bad_ext'',
      pkg_metadata = [\<lparr>md_module = Some ''bad_ext'', md_name = None, md_app = None\<rparr>],
      pkg_extension_points =
        [(''bad_ext'', \<lparr>pt_metadata = \<lparr>md_module = Some ''bad_ext'', md_name = None, md_app = None\<rparr>,
            pt_module_name = ''bad_ext'',
            pt_module = \<lparr>mod_link = Some (\<lambda>h. Inl SystemExit),
                          mod_load = Some (\<lambda>h. Inl SystemExit)\<rparr>\<rparr>)]\<rparr>"

definition ex_pkg_X :: "(nat, nat) extension_package" where
  "ex_pkg_X =
     \<lparr>pkg_name = ''pkgX'',
      pkg_metadata = [\<lparr>md_module = Some ''pkgX'', md_name = None, md_app = Some ex_app\<rparr>],
      pkg_extension_points =
        [(''X'', \<lparr>pt_metadata = \<lparr>md_module = Some ''pkgX'', md_name = None, md_app = Some ex_app\<rparr>,
            pt_module_name = ''pkgX'',
            pt_module = \<lparr>mod_link = None, mod_load = None\<rparr>\<rparr>)]\<rparr>"

definition ex_pkg_ab :: "(nat, nat) extension_package" where
  "ex_pkg_ab =
     \<lparr>pkg_name = ''ab_ext'',
      pkg_metadata = [\<lparr>md_module = Some ''a_ext'', md_name = Some ''p1'', md_app = None\<rparr>,
                      \<lparr>md_module = Some ''b_ext'', md_name = Some ''p2'', md_app = None\<rparr>],
      pkg_extension_points =
        [(''p1'', \<lparr>pt_metadata = \<lparr>md_module = Some ''a_ext'', md_name = Some ''p1'', md_app = None\<rparr>,
            pt_module_name = ''a_ext'',
            pt_module = \<lparr>mod_link = Some (\<lambda>h. Inr None),
                          mod_load = Some (\<lambda>h. Inl (RaisedException ''boom''))\<rparr>\<rparr>),
         (''p2'', \<lparr>pt_metadata = \<lparr>md_module = Some ''b_ext'', md_name = Some ''p2'', md_app = None\<rparr>,
            pt_module_name = ''b_ext'',
            pt_module = \<lparr>mod_link = Some (\<lambda>h. Inr None), mod_load = Some (\<lambda>h. Inr None)\<rparr>\<rparr>)]\<rparr>"

definition ex_pkg_half :: "(nat, nat) extension_package" where
  "ex_pkg_half =
     \<lparr>pkg_name = ''half_ext'',
      pkg_metadata = [\<lparr>md_module = Some ''half_ext'', md_name = None, md_app = None\<rparr>],
      pkg_extension_points =
        [(''half_ext'', \<lparr>pt_metadata = \<lparr>md_module = Some ''half_ext'', md_name = None,
                                         md_app = None\<rparr>,
            pt_module_name = ''half_ext'',
            pt_module = \<lparr>mod_link = Some (\<lambda>h. Inl SystemExit),
                          mod_load = Some (\<lambda>h. Inr None)\<rparr>\<rparr>)]\<rparr>"

text \<open>A manager that has enabled \<open>b_ext\<close> and the two-point package \<open>ab_ext\<close>.\<close>

definition ex_two_world :: "(nat, nat) world" where
  "ex_two_world =
     snd (from_jpserver_extensions ex_env 0 [(''b_ext'', True), (''ab_ext'', True)] initial_world)"

text \<open>A manager that has enabled \<open>half_ext\<close>.\<close>

definition ex_half_world :: "(nat, nat) world" where
  "ex_half_world = snd (add_extension ex_env 0 ''half_ext'' initial_world)"

text \<open>
  A manager that has enabled \<open>pkgX\<close>, and the collaborators as they are afterwards when
  \<^verbatim>\<open>get_metadata\<close> hands out the same dictionary again: the validator has stored the
  application object at \<^verbatim>\<open>app\<close>, and calling that object raises \<^verbatim>\<open>TypeError\<close>.
\<close>

definition ex_X_world :: "(nat, nat) world" where
  "ex_X_world = snd (add_extension ex_env 0 ''pkgX'' initial_world)"

definition ex_env_again :: "(nat, nat) env" where
  "ex_env_again =
     \<lparr>import_module = ex_import,
      get_metadata = (\<lambda>n.
        if n = ''pkgX'' then
          Inr [\<lparr>md_module = Some ''pkgX'', md_name = None,
                 md_app = Some (Inl (TypeError ''object is not callable''))\<rparr>]
        else ex_metadata n)\<rparr>"

text \<open>A manager that has enabled \<open>pkgX\<close> and \<open>bad_ext\<close>.\<close>

definition ex_bad_world :: "(nat, nat) world" where
  "ex_bad_world =
     snd (from_jpserver_extensions ex_env 0 [(''pkgX'', True), (''bad_ext'', True)] initial_world)"

section \<open>Predicates used in the statements\<close>

text \<open>\<open>grows w w'\<close>: state \<open>w'\<close> is \<open>w\<close> with further entries at the end of the trace.\<close>

definition grows :: "('h, 'r) world \<Rightarrow> ('h, 'r) world \<Rightarrow> bool" where
  "grows w w' \<longleftrightarrow> (\<exists>tr. w' = w\<lparr>trace := trace w @ tr\<rparr>)"

text \<open>
  A hook that, called with the given server application, returns or raises an instance of
  \<^verbatim>\<open>Exception\<close>; a point, a package and a state all of whose hooks are such.
\<close>

definition hook_ok :: "'h \<Rightarrow> ('h, 'r) hook option \<Rightarrow> bool" where
  "hook_ok serverapp h =
     (case h of
        None \<Rightarrow> True
      | Some f \<Rightarrow> (case f serverapp of Inl e \<Rightarrow> is_Exception e | Inr r \<Rightarrow> True))"

definition point_hooks_ok :: "'h \<Rightarrow> ('h, 'r) extension_point \<Rightarrow> bool" where
  "point_hooks_ok serverapp p =
     (case app p of
        Some a \<Rightarrow> hook_ok serverapp (app_link a) \<and> hook_ok serverapp (app_load a)
      | None \<Rightarrow> hook_ok serverapp (mod_link (module p)) \<and> hook_ok serverapp (mod_load (module p)))"

text \<open>The same for the load hooks alone.\<close>

definition point_load_ok :: "'h \<Rightarrow> ('h, 'r) extension_point \<Rightarrow> bool" where
  "point_load_ok serverapp p =
     hook_ok serverapp (case app p of Some a \<Rightarrow> app_load a | None \<Rightarrow> mod_load (module p))"

definition package_load_ok :: "'h \<Rightarrow> ('h, 'r) extension_package \<Rightarrow> bool" where
  "package_load_ok serverapp pkg =
     list_all (\<lambda>(n, p). point_load_ok serverapp p) (extension_points pkg)"

definition package_hooks_ok :: "'h \<Rightarrow> ('h, 'r) extension_package \<Rightarrow> bool" where
  "package_hooks_ok serverapp pkg =
     list_all (\<lambda>(n, p). point_hooks_ok serverapp p) (extension_points pkg)"

definition hooks_raise_Exception :: "'h \<Rightarrow> ('h, 'r) world \<Rightarrow> bool" where
  "hooks_raise_Exception serverapp w =
     list_all (\<lambda>(n, pkg). package_hooks_ok serverapp pkg) (cls_enabled_extensions w)"

text \<open>
  The states that the operations of the three classes reach from the initial state, with
  the collaborators \<open>E\<close>. An operation that raises leaves the state it had reached.
\<close>

inductive reachable :: "('h, 'r) env \<Rightarrow> ('h, 'r) world \<Rightarrow> bool" for E :: "('h, 'r) env" where
  r_init: "reachable E initial_world"
| r_manager: "reachable E w \<Longrightarrow> reachable E (snd (ExtensionManager w))"
| r_point: "reachable E w \<Longrightarrow> reachable E (snd (ExtensionPoint E m w))"
| r_package: "reachable E w \<Longrightarrow> reachable E (snd (ExtensionPackage E n w))"
| r_link: "reachable E w \<Longrightarrow> reachable E (snd (link p serverapp w))"
| r_load: "reachable E w \<Longrightarrow> reachable E (snd (load p serverapp w))"
| r_link_point: "reachable E w \<Longrightarrow> reachable E (snd (link_point pkg serverapp n w))"
| r_load_point: "reachable E w \<Longrightarrow> reachable E (snd (load_point pkg serverapp n w))"
| r_link_all_points: "reachable E w \<Longrightarrow> reachable E (snd (link_all_points pkg serverapp w))"
| r_load_all_points: "reachable E w \<Longrightarrow> reachable E (snd (load_all_points pkg serverapp w))"
| r_add_extension: "reachable E w \<Longrightarrow> reachable E (snd (add_extension E self n w))"
| r_from_jpserver_extensions:
    "reachable E w \<Longrightarrow> reachable E (snd (from_jpserver_extensions E self exts w))"
| r_link_extension: "reachable E w \<Longrightarrow> reachable E (snd (link_extension self serverapp n w))"
| r_load_extension: "reachable E w \<Longrightarrow> reachable E (snd (load_extension self serverapp n w))"
| r_link_all_extensions:
    "reachable E w \<Longrightarrow> reachable E (snd (link_all_extensions self serverapp w))"
| r_load_all_extensions:
    "reachable E w \<Longrightarrow> reachable E (snd (load_all_extensions self serverapp w))"


section \<open>Construction of points and packages\<close>









section \<open>The name and the hooks of a point\<close>

text \<open>
  C7. For a point constructed from packet \<open>m\<close>: its application object is the result of the
  packet's factory, and \<open>name\<close> is the name of that object when there is one, otherwise the
  packet's \<^verbatim>\<open>name\<close> entry when present, otherwise the module name. \<open>name\<close> is a function of
  the point alone: it neither reads nor changes the state.
\<close>

theorem name_resolution:
  "fst (ExtensionPoint E m w) = Inr p \<Longrightarrow>
     (\<exists>mn. md_module m = Some mn \<and>
        app p = (case md_app m of None \<Rightarrow> None | Some f \<Rightarrow> (case f of Inl e \<Rightarrow> None | Inr a \<Rightarrow> Some a)) \<and>
        name p = (case app p of
                    Some a \<Rightarrow> app_name a
                  | None \<Rightarrow> (case md_name m of Some n \<Rightarrow> n | None \<Rightarrow> mn)))"
  by (auto simp: ExtensionPoint_def valid_metadata_def name_def app_def py_module_name_def
           split: option.splits sum.splits if_splits)

theorem name_resolution_witness:
  "fst (ExtensionPoint ex_env \<lparr>md_module = Some ''pkgX'', md_name = None, md_app = Some (Inr ex_app)\<rparr>
          ex_world)
     = Inr \<lparr>pt_metadata = \<lparr>md_module = Some ''pkgX'', md_name = None, md_app = Some ex_app\<rparr>,
            pt_module_name = ''pkgX'', pt_module = \<lparr>mod_link = None, mod_load = None\<rparr>\<rparr> \<and>
   name \<lparr>pt_metadata = \<lparr>md_module = Some ''pkgX'', md_name = None, md_app = Some ex_app\<rparr>,
         pt_module_name = ''pkgX'', pt_module = \<lparr>mod_link = None, mod_load = None\<rparr>\<rparr> = ''X''"
proof -
  let ?m = "\<lparr>md_module = Some ''pkgX'', md_name = None, md_app = Some (Inr ex_app)\<rparr>"
  let ?p = "\<lparr>pt_metadata = \<lparr>md_module = Some ''pkgX'', md_name = None, md_app = Some ex_app\<rparr>,
            pt_module_name = ''pkgX'', pt_module = \<lparr>mod_link = None, mod_load = None\<rparr>\<rparr>"
  have c: "fst (ExtensionPoint ex_env ?m ex_world) = Inr ?p"
    by (simp add: ExtensionPoint_def valid_metadata_def ex_env_def ex_import_def)
  show ?thesis
    using c name_resolution[OF c] by (simp add: ex_app_def)
qed

text \<open>
  C5. A point without application object: when its module defines no load function,
  \<open>load\<close> raises LoaderNotFoundError; when its module defines no link function, \<open>link\<close>
  raises nothing, calls nothing, leaves the state as it is and returns \<^verbatim>\<open>None\<close>.
\<close>

theorem load_mandatory_link_optional:
  "app p = None \<Longrightarrow>
     (mod_load (module p) = None \<longrightarrow> load p serverapp w = (Inl LoaderNotFoundError, w)) \<and>
     (mod_link (module p) = None \<longrightarrow> link p serverapp w = (Inr None, w))"
  by (simp add: load_def link_def get_loader_def)

theorem load_mandatory_link_optional_witness:
  "app (\<lparr>pt_metadata = \<lparr>md_module = Some ''pkgX'', md_name = None, md_app = None\<rparr>,
        pt_module_name = ''pkgX'', pt_module = \<lparr>mod_link = None, mod_load = None\<rparr>\<rparr>
          :: (nat, nat) extension_point) = None \<and>
   load \<lparr>pt_metadata = \<lparr>md_module = Some ''pkgX'', md_name = None, md_app = None\<rparr>,
         pt_module_name = ''pkgX'', pt_module = \<lparr>mod_link = None, mod_load = None\<rparr>\<rparr> (7::nat) ex_world
     = (Inl LoaderNotFoundError, ex_world) \<and>
   link \<lparr>pt_metadata = \<lparr>md_module = Some ''pkgX'', md_name = None, md_app = None\<rparr>,
         pt_module_name = ''pkgX'', pt_module = \<lparr>mod_link = None, mod_load = None\<rparr>\<rparr> (7::nat) ex_world
     = (Inr None, ex_world)"
proof -
  let ?p = "\<lparr>pt_metadata = \<lparr>md_module = Some ''pkgX'', md_name = None, md_app = None\<rparr>,
            pt_module_name = ''pkgX'',
            pt_module = \<lparr>mod_link = None, mod_load = None\<rparr>\<rparr> :: (nat, nat) extension_point"
  have h: "app ?p = None" by (simp add: app_def)
  show ?thesis
    using h load_mandatory_link_optional[OF h, of 7 ex_world] by (simp add: module_def)
qed

section \<open>The enabled extensions\<close>

lemma distinct_map_insort_key:
  "distinct (map f (insort_key f x xs)) \<longleftrightarrow> f x \<notin> f ` set xs \<and> distinct (map f xs)"
  by (induction xs) (auto simp: set_insort_key)

lemma distinct_map_sort_key:
  "distinct (map f xs) \<Longrightarrow> distinct (map f (sort_key f xs))"
  by (induction xs) (auto simp: distinct_map_insort_key)

lemma keys_sort_key:
  assumes "distinct (map fst xs)"
  shows "map fst (sort_key fst xs) = sorted_list_of_set (fst ` set xs)"
proof (rule sorted_distinct_set_unique)
  show "sorted (map fst (sort_key fst xs))" by simp
  show "distinct (map fst (sort_key fst xs))" using assms by (rule distinct_map_sort_key)
  show "sorted (sorted_list_of_set (fst ` set xs))" by simp
  show "distinct (sorted_list_of_set (fst ` set xs))" by simp
  show "set (map fst (sort_key fst xs)) = set (sorted_list_of_set (fst ` set xs))" by simp
qed

lemma update_entry_in: "(k, v) \<in> set (AList.update k v al)"
  by (induction al) auto

lemma ex_package_a: "ExtensionPackage ex_env ''a_ext'' w = (Inr ex_pkg_a, w)"
  by (simp add: ExtensionPackage_def validate_name_def ExtensionPoint_def valid_metadata_def
        ex_env_def ex_metadata_def ex_import_def name_def app_def py_module_name_def ex_pkg_a_def)

lemma ex_package_b: "ExtensionPackage ex_env ''b_ext'' w = (Inr ex_pkg_b, w)"
  by (simp add: ExtensionPackage_def validate_name_def ExtensionPoint_def valid_metadata_def
        ex_env_def ex_metadata_def ex_import_def name_def app_def py_module_name_def ex_pkg_b_def)

lemma ex_package_bad: "ExtensionPackage ex_env ''bad_ext'' w = (Inr ex_pkg_bad, w)"
  by (simp add: ExtensionPackage_def validate_name_def ExtensionPoint_def valid_metadata_def
        ex_env_def ex_metadata_def ex_import_def name_def app_def py_module_name_def ex_pkg_bad_def)

lemma ex_enabled_world_eq:
  "ex_enabled_world =
     initial_world\<lparr>cls_enabled_extensions := [(''b_ext'', ex_pkg_b), (''a_ext'', ex_pkg_a)]\<rparr>"
  by (simp add: ex_enabled_world_def from_jpserver_extensions_def add_extension_def
        ex_package_a ex_package_b initial_world_def)

text \<open>
  C2. The dictionary of enabled extensions has distinct keys (it is a dictionary, and
  \<open>add_extension\<close> only assigns at a key). The view \<open>enabled_extensions\<close> lists its entries
  with strictly ascending names; the entries are those of the dictionary, and the order of
  the names is determined by the set of keys alone, whatever the order of insertion was.
\<close>

theorem enabled_extensions_sorted:
  "distinct (map fst (cls_enabled_extensions w)) \<Longrightarrow>
     sorted_wrt (<) (map fst (enabled_extensions self w)) \<and>
     set (enabled_extensions self w) = set (cls_enabled_extensions w) \<and>
     map fst (enabled_extensions self w) = sorted_list_of_set (fst ` set (cls_enabled_extensions w))"
  by (simp add: enabled_extensions_def strict_sorted_iff distinct_map_sort_key keys_sort_key)

theorem enabled_extensions_sorted_witness:
  "distinct (map fst (cls_enabled_extensions ex_enabled_world)) \<and>
   map fst (cls_enabled_extensions ex_enabled_world) = [''b_ext'', ''a_ext''] \<and>
   map fst (enabled_extensions 0 ex_enabled_world) = [''a_ext'', ''b_ext'']"
proof -
  have k: "map fst (cls_enabled_extensions ex_enabled_world) = [''b_ext'', ''a_ext'']"
    by (simp add: ex_enabled_world_eq)
  have d: "distinct (map fst (cls_enabled_extensions ex_enabled_world))"
    by (simp add: k)
  have s: "fst ` set (cls_enabled_extensions ex_enabled_world) = {''a_ext'', ''b_ext''}"
    by (auto simp: ex_enabled_world_eq)
  have "sorted_list_of_set {''a_ext'', ''b_ext''} = [''a_ext'', ''b_ext'']"
    by (simp add: sorted_list_of_set_insert_remove)
  with d s k enabled_extensions_sorted[OF d, of 0] show ?thesis by simp
qed

text \<open>
  C10. The enabled dictionary belongs to the class, not to an instance: once
  \<open>add_extension\<close> has constructed the package for a name through one manager instance, the
  name, with that package, is among the enabled extensions seen through every manager
  instance, also through an instance created afterwards.
\<close>

theorem enabled_set_is_process_wide:
  "fst (ExtensionPackage E n w) = Inr pkg \<Longrightarrow>
     (\<exists>w'. add_extension E self n w = (Inr (), w') \<and>
        (\<forall>other. (n, pkg) \<in> set (enabled_extensions other w')) \<and>
        (n, pkg) \<in> set (enabled_extensions (fst (ExtensionManager w')) (snd (ExtensionManager w'))))"
  by (cases "ExtensionPackage E n w")
     (auto simp: add_extension_def enabled_extensions_def ExtensionManager_def update_entry_in)

theorem enabled_set_is_process_wide_witness:
  "fst (ExtensionPackage ex_env ''a_ext'' ex_world) = Inr ex_pkg_a \<and>
   (\<exists>w'. add_extension ex_env 0 ''a_ext'' ex_world = (Inr (), w') \<and>
      (''a_ext'', ex_pkg_a) \<in> set (enabled_extensions 1 w'))"
proof -
  have c: "fst (ExtensionPackage ex_env ''a_ext'' ex_world) = Inr ex_pkg_a"
    by (simp add: ex_package_a)
  show ?thesis
    using c enabled_set_is_process_wide[OF c, of 0] by blast
qed

section \<open>What the operations leave unchanged\<close>

text \<open>
  Linking and loading, at every level, and the construction of points and packages only
  add to the trace.
\<close>

lemma grows_refl: "grows w w"
  unfolding grows_def by (rule exI[of _ "[]"]) simp

lemma grows_trans: "grows w w1 \<Longrightarrow> grows w1 w2 \<Longrightarrow> grows w w2"
  unfolding grows_def
proof -
  assume "\<exists>tr. w1 = w\<lparr>trace := trace w @ tr\<rparr>" and "\<exists>tr. w2 = w1\<lparr>trace := trace w1 @ tr\<rparr>"
  then obtain t1 t2 where a: "w1 = w\<lparr>trace := trace w @ t1\<rparr>" and b: "w2 = w1\<lparr>trace := trace w1 @ t2\<rparr>"
    by blast
  have "w2 = w\<lparr>trace := trace w @ (t1 @ t2)\<rparr>" by (subst b, subst a, subst a) simp
  then show "\<exists>tr. w2 = w\<lparr>trace := trace w @ tr\<rparr>" by blast
qed

lemma grows_emit: "grows w (emit ev w)"
  unfolding grows_def emit_def by blast

lemma grows_emit': "grows w w1 \<Longrightarrow> grows w (emit ev w1)"
  using grows_trans grows_emit by blast

lemma grows_fields:
  "grows w w' \<Longrightarrow> cls_enabled_extensions w' = cls_enabled_extensions w \<and>
     cls_linked_extensions w' = cls_linked_extensions w \<and>
     cls_linked_points w' = cls_linked_points w \<and> next_manager w' = next_manager w"
  unfolding grows_def by auto

lemma grows_link: "grows w (snd (link p serverapp w))"
  by (auto simp: link_def grows_refl grows_emit split: option.splits)

lemma grows_load: "grows w (snd (load p serverapp w))"
  by (auto simp: load_def Let_def grows_refl grows_emit split: option.splits sum.splits)

lemma grows_link_point: "grows w (snd (link_point pkg serverapp n w))"
proof (cases "map_of (extension_points pkg) n")
  case None
  then show ?thesis by (simp add: link_point_def grows_refl)
next
  case (Some point)
  obtain r w1 where r: "link point serverapp w = (r, w1)" by (cases "link point serverapp w")
  with grows_link[of w point serverapp] have "grows w w1" by simp
  with Some r show ?thesis by (cases r) (simp_all add: link_point_def grows_refl)
qed

lemma grows_load_point: "grows w (snd (load_point pkg serverapp n w))"
proof (cases "map_of (extension_points pkg) n")
  case None
  then show ?thesis by (simp add: load_point_def grows_refl)
next
  case (Some point)
  obtain r w1 where r: "load point serverapp w = (r, w1)" by (cases "load point serverapp w")
  with grows_load[of w point serverapp] have "grows w w1" by simp
  with Some r show ?thesis by (cases r) (simp_all add: load_point_def)
qed

lemma for_each_grows:
  "(\<And>x w. grows w (snd (body x w))) \<Longrightarrow> grows w (snd (for_each body xs w))"
proof (induction xs arbitrary: w)
  case Nil
  show ?case by (simp add: grows_refl)
next
  case (Cons x xs)
  have g: "grows w (snd (body x w))" by (rule Cons.prems)
  show ?case
  proof (cases "body x w")
    case (Pair r w1)
    with g have g1: "grows w w1" by simp
    show ?thesis
    proof (cases r)
      case (Inl e)
      with Pair g1 show ?thesis by simp
    next
      case (Inr u)
      have "grows w1 (snd (for_each body xs w1))" by (rule Cons.IH) (rule Cons.prems)
      with Pair Inr g1 show ?thesis by (simp add: grows_trans)
    qed
  qed
qed

lemma grows_link_all_points: "grows w (snd (link_all_points pkg serverapp w))"
  unfolding link_all_points_def by (rule for_each_grows) (rule grows_link_point)

lemma grows_load_all_points: "grows w (snd (load_all_points pkg serverapp w))"
  unfolding load_all_points_def by (rule for_each_grows) (rule grows_load_point)

lemma grows_link_extension: "grows w (snd (link_extension self serverapp n w))"
proof (cases "map_of (enabled_extensions self w) n")
  case None
  then show ?thesis by (simp add: link_extension_def grows_refl)
next
  case (Some ext)
  obtain r w1 where r: "link_all_points ext serverapp w = (r, w1)"
    by (cases "link_all_points ext serverapp w")
  with grows_link_all_points[of w ext serverapp] have g: "grows w w1" by simp
  with Some r show ?thesis
    by (cases r) (simp_all add: link_extension_def grows_refl grows_emit')
qed

lemma grows_load_extension: "grows w (snd (load_extension self serverapp n w))"
proof (cases "map_of (enabled_extensions self w) n")
  case None
  then show ?thesis by (simp add: load_extension_def grows_emit)
next
  case (Some ext)
  obtain r w1 where r: "load_all_points ext serverapp w = (r, w1)"
    by (cases "load_all_points ext serverapp w")
  with grows_load_all_points[of w ext serverapp] have g: "grows w w1" by simp
  with Some r show ?thesis
    by (cases r) (simp_all add: load_extension_def grows_emit')
qed

lemma grows_link_all_extensions: "grows w (snd (link_all_extensions self serverapp w))"
  unfolding link_all_extensions_def by (rule for_each_grows) (rule grows_link_extension)

lemma grows_load_all_extensions: "grows w (snd (load_all_extensions self serverapp w))"
  unfolding load_all_extensions_def by (rule for_each_grows) (rule grows_load_extension)

lemma grows_ExtensionPoint: "grows w (snd (ExtensionPoint E m w))"
  by (auto simp: ExtensionPoint_def valid_metadata_def grows_refl grows_emit
           split: option.splits sum.splits)

lemma grows_build_points: "grows w (snd (build_points E ms acc w))"
proof (induction ms arbitrary: acc w)
  case Nil
  show ?case by (simp add: grows_refl)
next
  case (Cons m ms)
  have g: "grows w (snd (ExtensionPoint E m w))" by (rule grows_ExtensionPoint)
  show ?case
  proof (cases "ExtensionPoint E m w")
    case (Pair r w1)
    with g have g1: "grows w w1" by simp
    show ?thesis
    proof (cases r)
      case (Inl e)
      with Pair g1 show ?thesis by simp
    next
      case (Inr p)
      with Pair g1 Cons.IH[of w1] show ?thesis by (simp add: grows_trans)
    qed
  qed
qed

lemma grows_ExtensionPackage: "grows w (snd (ExtensionPackage E n w))"
proof (cases "get_metadata E n")
  case (Inl e)
  then show ?thesis by (simp add: ExtensionPackage_def validate_name_def grows_refl)
next
  case (Inr ms)
  obtain r w1 where r: "build_points E ms ([], []) w = (r, w1)"
    by (cases "build_points E ms ([], []) w")
  with grows_build_points[of w E ms "([], [])"] have g: "grows w w1" by simp
  with Inr r show ?thesis
    by (cases r) (simp_all add: ExtensionPackage_def validate_name_def split: prod.splits)
qed

section \<open>Reachable states\<close>

lemma for_each_inv:
  "(\<And>x w. I w \<Longrightarrow> I (snd (body x w))) \<Longrightarrow> I w \<Longrightarrow> I (snd (for_each body xs w))"
proof (induction xs arbitrary: w)
  case Nil
  then show ?case by simp
next
  case (Cons x xs)
  have i1: "I (snd (body x w))" using Cons.prems by blast
  show ?case
  proof (cases "body x w")
    case (Pair r w1)
    with i1 have "I w1" by simp
    with Pair Cons.IH[of w1] Cons.prems(1) show ?thesis by (cases r) simp_all
  qed
qed

lemma add_extension_failure:
  assumes "fst (ExtensionPackage E n w) = Inl e" and "is_Exception e"
  shows "add_extension E self n w = (Inr (), emit (Log_warning self e) (snd (ExtensionPackage E n w)))"
  using assms by (cases "ExtensionPackage E n w") (simp add: add_extension_def)

lemma add_extension_success:
  assumes "fst (ExtensionPackage E n w) = Inr pkg"
  shows "add_extension E self n w =
           (Inr (), (snd (ExtensionPackage E n w))\<lparr>cls_enabled_extensions :=
              AList.update n pkg (cls_enabled_extensions w)\<rparr>)"
proof -
  obtain w1 where a: "ExtensionPackage E n w = (Inr pkg, w1)"
    using assms by (cases "ExtensionPackage E n w") simp
  with grows_ExtensionPackage[of w E n] have "grows w w1" by simp
  then have "cls_enabled_extensions w1 = cls_enabled_extensions w" by (simp add: grows_fields)
  with a show ?thesis by (simp add: add_extension_def)
qed

text \<open>The properties that hold in every reachable state.\<close>

lemma add_extension_cases:
  "grows w (snd (add_extension E self n w)) \<or>
   (\<exists>pkg w1. fst (ExtensionPackage E n w) = Inr pkg \<and> grows w w1 \<and>
      snd (add_extension E self n w) =
        w1\<lparr>cls_enabled_extensions := AList.update n pkg (cls_enabled_extensions w)\<rparr>)"
proof (cases "fst (ExtensionPackage E n w)")
  case (Inl e)
  obtain w1 where a: "ExtensionPackage E n w = (Inl e, w1)"
    using Inl by (cases "ExtensionPackage E n w") simp
  with grows_ExtensionPackage[of w E n] have "grows w w1" by simp
  with a have "grows w (snd (add_extension E self n w))"
    by (simp add: add_extension_def grows_emit')
  then show ?thesis by blast
next
  case (Inr pkg)
  have "grows w (snd (ExtensionPackage E n w))" by (rule grows_ExtensionPackage)
  with Inr add_extension_success[OF Inr, of self] show ?thesis by auto
qed

lemma reachable_induct_grows [consumes 1, case_names init grow man add]:
  assumes r: "reachable E w"
    and init: "P initial_world"
    and grow: "\<And>w w'. P w \<Longrightarrow> grows w w' \<Longrightarrow> P w'"
    and man: "\<And>w. P w \<Longrightarrow> P (snd (ExtensionManager w))"
    and add: "\<And>w self n. P w \<Longrightarrow> P (snd (add_extension E self n w))"
  shows "P w"
  using r
proof (induction rule: reachable.induct)
  case r_init
  show ?case by (rule init)
next
  case (r_manager w)
  then show ?case using man by blast
next
  case (r_add_extension w self n)
  then show ?case using add by blast
next
  case (r_from_jpserver_extensions w self exts)
  have "P (snd (for_each (\<lambda>(n, enabled) w. if enabled then add_extension E self n w else (Inr (), w))
                  exts w))"
  proof (rule for_each_inv[where I = P])
    show "P w" by (rule r_from_jpserver_extensions.IH)
  next
    fix x :: "string \<times> bool" and w'
    assume "P w'"
    then show "P (snd ((case x of (n, enabled) \<Rightarrow> \<lambda>w. if enabled then add_extension E self n w else (Inr (), w)) w'))"
      using add by (cases x) auto
  qed
  then show ?case by (simp add: from_jpserver_extensions_def)
qed (blast intro: grow grows_ExtensionPoint grows_ExtensionPackage grows_link grows_load
       grows_link_point grows_load_point grows_link_all_points grows_load_all_points
       grows_link_extension grows_load_extension grows_link_all_extensions
       grows_load_all_extensions)+

lemma update_set_subset: "set (AList.update k v al) \<subseteq> insert (k, v) (set al)"
  by (induction al) auto

lemma reachable_linked_empty:
  "reachable E w \<Longrightarrow> cls_linked_points w = Map.empty \<and> cls_linked_extensions w = Map.empty"
proof (induction rule: reachable_induct_grows)
  case init
  show ?case by (simp add: initial_world_def)
next
  case (grow w w')
  then show ?case by (simp add: grows_fields)
next
  case (man w)
  then show ?case by (simp add: ExtensionManager_def)
next
  case (add w self n)
  from add_extension_cases[of w E self n] add show ?case
    by (auto simp: grows_fields)
qed

lemma reachable_distinct:
  "reachable E w \<Longrightarrow> distinct (map fst (cls_enabled_extensions w))"
proof (induction rule: reachable_induct_grows)
  case init
  show ?case by (simp add: initial_world_def)
next
  case (grow w w')
  then show ?case by (simp add: grows_fields)
next
  case (man w)
  then show ?case by (simp add: ExtensionManager_def)
next
  case (add w self n)
  from add_extension_cases[of w E self n] add show ?case
    by (auto simp: grows_fields distinct_update)
qed

section \<open>Extensions that cannot be constructed\<close>

lemma ex_reachable: "reachable ex_env ex_enabled_world"
  unfolding ex_enabled_world_def by (rule r_from_jpserver_extensions) (rule r_init)

lemma ex_package_missing:
  "ExtensionPackage ex_env ''missing_ext'' w = (Inl ExtensionModuleNotFound, w)"
  by (simp add: ExtensionPackage_def validate_name_def ex_env_def ex_metadata_def)

lemma ex_package_X: "ExtensionPackage ex_env ''pkgX'' w = (Inr ex_pkg_X, emit (Call_app ''pkgX'') w)"
  by (simp add: ExtensionPackage_def validate_name_def ExtensionPoint_def valid_metadata_def
        ex_env_def ex_metadata_def ex_import_def name_def app_def py_module_name_def ex_pkg_X_def
        ex_app_def)

lemma ex_X_world_eq:
  "ex_X_world =
     \<lparr>cls_enabled_extensions = [(''pkgX'', ex_pkg_X)],
      cls_linked_extensions = Map.empty, cls_linked_points = Map.empty, next_manager = 0,
      trace = [Call_app ''pkgX'']\<rparr>"
  by (simp add: ex_X_world_def add_extension_def ex_package_X initial_world_def emit_def)

lemma ex_package_X_again:
  "ExtensionPackage ex_env_again ''pkgX'' w
     = (Inl (TypeError ''object is not callable''), emit (Call_app ''pkgX'') w)"
  by (simp add: ExtensionPackage_def validate_name_def ExtensionPoint_def valid_metadata_def
        ex_env_again_def ex_import_def)

text \<open>
  C4, as amended. When the construction of the package for a name raises \<open>e\<close>, and \<open>e\<close> is
  an instance of \<^verbatim>\<open>Exception\<close> (as ExtensionModuleNotFound, for a package that does not
  resolve, and ExtensionMetadataError, for a bad packet, are), \<open>add_extension\<close> returns
  normally and its only effect after the attempt is the warning; an exception outside
  \<^verbatim>\<open>Exception\<close> is raised to the caller. Either way the enabled dictionary, and with it the
  view \<open>enabled_extensions\<close> of every instance, is as before: the name is not added, and it
  is absent afterwards when it was absent before.
\<close>

theorem failed_extension_is_skipped:
  "fst (ExtensionPackage E n w) = Inl e \<Longrightarrow>
     (is_Exception e \<longrightarrow>
        add_extension E self n w
          = (Inr (), emit (Log_warning self e) (snd (ExtensionPackage E n w)))) \<and>
     (\<not> is_Exception e \<longrightarrow>
        add_extension E self n w = (Inl e, snd (ExtensionPackage E n w))) \<and>
     (e = ExtensionModuleNotFound \<or> e = ExtensionMetadataError \<longrightarrow> is_Exception e) \<and>
     (get_metadata E n = Inl ImportError \<longrightarrow> e = ExtensionModuleNotFound) \<and>
     cls_enabled_extensions (snd (add_extension E self n w)) = cls_enabled_extensions w \<and>
     enabled_extensions other (snd (add_extension E self n w)) = enabled_extensions other w \<and>
     (n \<notin> fst ` set (cls_enabled_extensions w) \<longrightarrow>
        n \<notin> fst ` set (enabled_extensions other (snd (add_extension E self n w))))"
proof -
  assume f: "fst (ExtensionPackage E n w) = Inl e"
  obtain w1 where p: "ExtensionPackage E n w = (Inl e, w1)"
    using f by (cases "ExtensionPackage E n w") simp
  with grows_ExtensionPackage[of w E n] have g1: "grows w w1" by simp
  have a: "is_Exception e \<longrightarrow>
        add_extension E self n w
          = (Inr (), emit (Log_warning self e) (snd (ExtensionPackage E n w)))"
    using p by (simp add: add_extension_def)
  have b: "\<not> is_Exception e \<longrightarrow>
        add_extension E self n w = (Inl e, snd (ExtensionPackage E n w))"
    using p by (simp add: add_extension_def)
  have c: "e = ExtensionModuleNotFound \<or> e = ExtensionMetadataError \<longrightarrow> is_Exception e"
    by auto
  have d: "get_metadata E n = Inl ImportError \<longrightarrow> e = ExtensionModuleNotFound"
    using f by (auto simp: ExtensionPackage_def validate_name_def)
  have g: "grows w (snd (add_extension E self n w))"
    using p g1 by (simp add: add_extension_def grows_emit')
  then have k: "cls_enabled_extensions (snd (add_extension E self n w)) = cls_enabled_extensions w"
    by (simp add: grows_fields)
  then have v: "enabled_extensions other (snd (add_extension E self n w))
                  = enabled_extensions other w"
    by (simp add: enabled_extensions_def)
  have m: "n \<notin> fst ` set (cls_enabled_extensions w) \<longrightarrow>
        n \<notin> fst ` set (enabled_extensions other (snd (add_extension E self n w)))"
    by (simp add: v) (simp add: enabled_extensions_def)
  show ?thesis
    by (rule conjI[OF a conjI[OF b conjI[OF c conjI[OF d conjI[OF k conjI[OF v m]]]]]])
qed

theorem failed_extension_is_skipped_witness:
  "fst (ExtensionPackage ex_env ''missing_ext'' ex_enabled_world) = Inl ExtensionModuleNotFound \<and>
   is_Exception ExtensionModuleNotFound \<and>
   get_metadata ex_env ''missing_ext'' = Inl ImportError \<and>
   ''missing_ext'' \<notin> fst ` set (cls_enabled_extensions ex_enabled_world) \<and>
   add_extension ex_env 0 ''missing_ext'' ex_enabled_world
     = (Inr (), emit (Log_warning 0 ExtensionModuleNotFound) ex_enabled_world) \<and>
   ''missing_ext''
     \<notin> fst ` set (enabled_extensions 0 (snd (add_extension ex_env 0 ''missing_ext'' ex_enabled_world)))"
proof -
  have f: "fst (ExtensionPackage ex_env ''missing_ext'' ex_enabled_world) = Inl ExtensionModuleNotFound"
    by (simp add: ex_package_missing)
  have x: "is_Exception ExtensionModuleNotFound" by simp
  have i: "get_metadata ex_env ''missing_ext'' = Inl ImportError"
    by (simp add: ex_env_def ex_metadata_def)
  have n: "''missing_ext'' \<notin> fst ` set (cls_enabled_extensions ex_enabled_world)"
    by (simp add: ex_enabled_world_eq)
  note t = failed_extension_is_skipped[OF f, of 0 0]
  from t[THEN conjunct1] x
  have a: "add_extension ex_env 0 ''missing_ext'' ex_enabled_world
     = (Inr (), emit (Log_warning 0 ExtensionModuleNotFound) ex_enabled_world)"
    by (simp add: ex_package_missing)
  from t n have b: "''missing_ext''
     \<notin> fst ` set (enabled_extensions 0 (snd (add_extension ex_env 0 ''missing_ext'' ex_enabled_world)))"
    by (elim conjE) (rule mp)
  from f x i n a b show ?thesis by (intro conjI)
qed

text \<open>
  C4 as stated, the name is absent afterwards, does not hold for a name that is enabled
  already: \<open>add_extension\<close> never removes an entry. After \<open>pkgX\<close> has been enabled, a second
  \<open>add_extension\<close>, whose construction fails, logs the warning, and \<open>pkgX\<close> is still enabled.
\<close>

theorem failed_extension_is_skipped_counterexample:
  "fst (ExtensionPackage ex_env_again ''pkgX'' ex_X_world)
     = Inl (TypeError ''object is not callable'') \<and>
   add_extension ex_env_again 0 ''pkgX'' ex_X_world
     = (Inr (), emit (Log_warning 0 (TypeError ''object is not callable''))
                  (emit (Call_app ''pkgX'') ex_X_world)) \<and>
   map fst (enabled_extensions 0 (snd (add_extension ex_env_again 0 ''pkgX'' ex_X_world)))
     = [''pkgX'']"
  by (simp add: add_extension_def ex_package_X_again enabled_extensions_def emit_def ex_X_world_eq)

section \<open>The linked flags\<close>

text \<open>
  C8. In every reachable state \<^verbatim>\<open>_linked_points\<close> and \<^verbatim>\<open>_linked_extensions\<close> are empty.
  Hence \<open>link_point\<close>, for a point of the package, is the call of the point's \<open>link\<close>, and
  \<open>link_extension\<close>, for an enabled name, is the guarded call of \<open>link_all_points\<close>: the
  test of the flag never skips it.
\<close>

theorem linked_guards_never_engage:
  "reachable E w \<Longrightarrow>
     cls_linked_points w = Map.empty \<and> cls_linked_extensions w = Map.empty \<and>
     (\<forall>pkg serverapp pn point. map_of (extension_points pkg) pn = Some point \<longrightarrow>
        link_point pkg serverapp pn w =
          (case link point serverapp w of
             (Inl e, w') \<Rightarrow> (Inl e, w')
           | (Inr out, w') \<Rightarrow> (Inr (), w'))) \<and>
     (\<forall>self serverapp n extension. map_of (enabled_extensions self w) n = Some extension \<longrightarrow>
        link_extension self serverapp n w =
          (case link_all_points extension serverapp w of
             (Inr u, w') \<Rightarrow> (Inr (), emit (Log_debug self (linked_msg n)) w')
           | (Inl e, w') \<Rightarrow>
               (if is_Exception e then (Inr (), emit (Log_warning self e) w') else (Inl e, w'))))"
proof -
  assume r: "reachable E w"
  have e: "cls_linked_points w = Map.empty \<and> cls_linked_extensions w = Map.empty"
    using r by (rule reachable_linked_empty)
  then show ?thesis by (simp add: link_point_def link_extension_def)
qed

theorem linked_guards_never_engage_witness:
  "reachable ex_env ex_enabled_world \<and>
   cls_linked_points ex_enabled_world = Map.empty \<and>
   cls_linked_extensions ex_enabled_world = Map.empty \<and>
   link_extension 0 (7::nat) ''b_ext'' ex_enabled_world
     = (Inr (), emit (Log_debug 0 (linked_msg ''b_ext''))
                  (emit (Call_link ''b_point'' 7) ex_enabled_world))"
proof -
  have m: "map_of (enabled_extensions 0 ex_enabled_world) ''b_ext'' = Some ex_pkg_b"
    by (simp add: enabled_extensions_def ex_enabled_world_eq)
  have l: "link_all_points ex_pkg_b (7::nat) ex_enabled_world
             = (Inr (), emit (Call_link ''b_point'' 7) ex_enabled_world)"
    by (simp add: link_all_points_def link_point_def link_def extension_points_def ex_pkg_b_def
          app_def module_def name_def ex_enabled_world_eq initial_world_def)
  show ?thesis
    using ex_reachable m l linked_guards_never_engage[OF ex_reachable] by simp
qed

section \<open>Failures while linking and loading\<close>

text \<open>
  When the hooks raise instances of \<^verbatim>\<open>Exception\<close> only, so do \<open>link\<close> and \<open>load\<close> at the
  level of points and packages (a missing attribute, a missing loader and a missing key are
  such instances), and the \<^verbatim>\<open>except Exception\<close> clauses of the manager catch them.
\<close>

lemma link_raises_Exception:
  "point_hooks_ok serverapp p \<Longrightarrow> fst (link p serverapp w) = Inl e \<Longrightarrow> is_Exception e"
  by (auto simp: link_def point_hooks_ok_def hook_ok_def split: option.splits sum.splits)

lemma load_raises_Exception:
  "point_hooks_ok serverapp p \<Longrightarrow> fst (load p serverapp w) = Inl e \<Longrightarrow> is_Exception e"
  by (auto simp: load_def get_loader_def point_hooks_ok_def hook_ok_def
           split: option.splits sum.splits)

lemma package_point_ok:
  "package_hooks_ok serverapp pkg \<Longrightarrow> map_of (extension_points pkg) pn = Some point
     \<Longrightarrow> point_hooks_ok serverapp point"
  by (auto simp: package_hooks_ok_def list_all_iff dest: map_of_SomeD)

lemma link_point_raises_Exception:
  assumes ok: "package_hooks_ok serverapp pkg" and f: "fst (link_point pkg serverapp pn w) = Inl e"
  shows "is_Exception e"
proof (cases "map_of (extension_points pkg) pn")
  case None
  with f show ?thesis by (auto simp: link_point_def Let_def split: if_splits)
next
  case (Some point)
  obtain r w1 where l: "link point serverapp w = (r, w1)" by (cases "link point serverapp w")
  with Some f have "r = Inl e"
    by (cases r) (auto simp: link_point_def Let_def split: if_splits)
  with l link_raises_Exception[OF package_point_ok[OF ok Some], of w e] show ?thesis by simp
qed

lemma load_point_raises_Exception:
  assumes ok: "package_hooks_ok serverapp pkg" and f: "fst (load_point pkg serverapp pn w) = Inl e"
  shows "is_Exception e"
proof (cases "map_of (extension_points pkg) pn")
  case None
  with f show ?thesis by (auto simp: load_point_def)
next
  case (Some point)
  obtain r w1 where l: "load point serverapp w = (r, w1)" by (cases "load point serverapp w")
  with Some f have "r = Inl e"
    by (cases r) (auto simp: load_point_def)
  with l load_raises_Exception[OF package_point_ok[OF ok Some], of w e] show ?thesis by simp
qed

lemma for_each_err:
  "(\<And>x w e. fst (body x w) = Inl e \<Longrightarrow> Q e) \<Longrightarrow> fst (for_each body xs w) = Inl e \<Longrightarrow> Q e"
proof (induction xs arbitrary: w)
  case Nil
  then show ?case by simp
next
  case (Cons x xs)
  obtain r w1 where b: "body x w = (r, w1)" by (cases "body x w")
  show ?case
  proof (cases r)
    case (Inl e')
    with b Cons.prems(2) have "e' = e" by simp
    with b Inl Cons.prems(1)[of x w e] show ?thesis by simp
  next
    case (Inr u)
    with b Cons.prems(2) have "fst (for_each body xs w1) = Inl e" by simp
    with Cons.IH[of w1] Cons.prems(1) show ?thesis by blast
  qed
qed

lemma link_all_points_raises_Exception:
  "package_hooks_ok serverapp pkg \<Longrightarrow> fst (link_all_points pkg serverapp w) = Inl e
     \<Longrightarrow> is_Exception e"
  unfolding link_all_points_def
  by (rule for_each_err[where Q = is_Exception and body = "link_point pkg serverapp"])
     (auto intro: link_point_raises_Exception)

lemma load_all_points_raises_Exception:
  "package_hooks_ok serverapp pkg \<Longrightarrow> fst (load_all_points pkg serverapp w) = Inl e
     \<Longrightarrow> is_Exception e"
  unfolding load_all_points_def
  by (rule for_each_err[where Q = is_Exception and body = "load_point pkg serverapp"])
     (auto intro: load_point_raises_Exception)

lemma enabled_package_ok:
  "hooks_raise_Exception serverapp w \<Longrightarrow> map_of (enabled_extensions self w) n = Some ext
     \<Longrightarrow> package_hooks_ok serverapp ext"
proof -
  assume ok: "hooks_raise_Exception serverapp w"
    and m: "map_of (enabled_extensions self w) n = Some ext"
  from m have "(n, ext) \<in> set (enabled_extensions self w)" by (rule map_of_SomeD)
  then have "(n, ext) \<in> set (cls_enabled_extensions w)" by (simp add: enabled_extensions_def)
  with ok show ?thesis by (auto simp: hooks_raise_Exception_def list_all_iff)
qed

lemma enabled_lookup:
  "n \<in> fst ` set (cls_enabled_extensions w) \<Longrightarrow> \<exists>ext. map_of (enabled_extensions self w) n = Some ext"
proof -
  assume "n \<in> fst ` set (cls_enabled_extensions w)"
  then have "n \<in> fst ` set (enabled_extensions self w)" by (simp add: enabled_extensions_def)
  then have "map_of (enabled_extensions self w) n \<noteq> None" by (simp add: map_of_eq_None_iff)
  then show ?thesis by blast
qed

lemma link_extension_returns:
  assumes ok: "hooks_raise_Exception serverapp w" and n: "n \<in> fst ` set (cls_enabled_extensions w)"
  shows "fst (link_extension self serverapp n w) = Inr ()"
proof -
  from enabled_lookup[OF n, of self] obtain ext
    where m: "map_of (enabled_extensions self w) n = Some ext" by blast
  obtain r w1 where l: "link_all_points ext serverapp w = (r, w1)"
    by (cases "link_all_points ext serverapp w")
  show ?thesis
  proof (cases r)
    case (Inl e)
    with l link_all_points_raises_Exception[OF enabled_package_ok[OF ok m], of w e]
    have "is_Exception e" by simp
    with m l Inl show ?thesis by (simp add: link_extension_def)
  next
    case (Inr u)
    with m l show ?thesis by (simp add: link_extension_def)
  qed
qed

lemma load_extension_returns:
  assumes ok: "hooks_raise_Exception serverapp w"
  shows "fst (load_extension self serverapp n w) = Inr ()"
proof (cases "map_of (enabled_extensions self w) n")
  case None
  then show ?thesis by (simp add: load_extension_def)
next
  case (Some ext)
  obtain r w1 where l: "load_all_points ext serverapp w = (r, w1)"
    by (cases "load_all_points ext serverapp w")
  show ?thesis
  proof (cases r)
    case (Inl e)
    with l load_all_points_raises_Exception[OF enabled_package_ok[OF ok Some], of w e]
    have "is_Exception e" by simp
    with Some l Inl show ?thesis by (simp add: load_extension_def)
  next
    case (Inr u)
    with Some l show ?thesis by (simp add: load_extension_def)
  qed
qed

lemma link_extension_failure:
  assumes ok: "hooks_raise_Exception serverapp w"
    and m: "map_of (enabled_extensions self w) n = Some ext"
    and nl: "cls_linked_extensions w n \<noteq> Some True"
    and l: "link_all_points ext serverapp w = (Inl e, w1)"
  shows "link_extension self serverapp n w = (Inr (), emit (Log_warning self e) w1)"
proof -
  from l link_all_points_raises_Exception[OF enabled_package_ok[OF ok m], of w e]
  have "is_Exception e" by simp
  with m l nl show ?thesis by (auto simp: link_extension_def split: option.splits)
qed

lemma load_extension_failure:
  assumes ok: "hooks_raise_Exception serverapp w"
    and m: "map_of (enabled_extensions self w) n = Some ext"
    and l: "load_all_points ext serverapp w = (Inl e, w1)"
  shows "load_extension self serverapp n w = (Inr (), emit (Log_warning self e) w1)"
proof -
  from l load_all_points_raises_Exception[OF enabled_package_ok[OF ok m], of w e]
  have "is_Exception e" by simp
  with m l show ?thesis by (simp add: load_extension_def)
qed

lemma for_each_total:
  "(\<And>x w'. x \<in> set xs \<Longrightarrow> I w' \<Longrightarrow> fst (body x w') = Inr () \<and> I (snd (body x w')))
     \<Longrightarrow> I w \<Longrightarrow> for_each body xs w = (Inr (), fold (\<lambda>x w'. snd (body x w')) xs w)"
proof (induction xs arbitrary: w)
  case Nil
  show ?case by simp
next
  case (Cons x xs)
  obtain r w1 where b: "body x w = (r, w1)" by (cases "body x w")
  from Cons.prems(1)[of x w] Cons.prems(2) b have r: "r = Inr ()" and i: "I w1" by auto
  have "for_each body xs w1 = (Inr (), fold (\<lambda>x w'. snd (body x w')) xs w1)"
    by (rule Cons.IH) (use Cons.prems(1) i in auto)
  with b r show ?case by simp
qed

lemma grows_hooks_ok:
  "grows w w' \<Longrightarrow> hooks_raise_Exception serverapp w \<Longrightarrow> hooks_raise_Exception serverapp w'"
  by (simp add: hooks_raise_Exception_def grows_fields)

text \<open>The example states, evaluated.\<close>

lemma ex_bad_world_eq:
  "ex_bad_world =
     \<lparr>cls_enabled_extensions = [(''pkgX'', ex_pkg_X), (''bad_ext'', ex_pkg_bad)],
      cls_linked_extensions = Map.empty, cls_linked_points = Map.empty, next_manager = 0,
      trace = [Call_app ''pkgX'']\<rparr>"
  by (simp add: ex_bad_world_def from_jpserver_extensions_def add_extension_def
        ex_package_X ex_package_bad initial_world_def emit_def)

lemma ex_bad_sorted:
  "enabled_extensions self ex_bad_world = [(''bad_ext'', ex_pkg_bad), (''pkgX'', ex_pkg_X)]"
  by (simp add: enabled_extensions_def ex_bad_world_eq)

lemma ex_bad_link_points:
  "link_all_points ex_pkg_bad (7::nat) ex_bad_world
     = (Inl SystemExit, emit (Call_link ''bad_ext'' 7) ex_bad_world)"
  by (simp add: link_all_points_def link_point_def link_def extension_points_def ex_pkg_bad_def
        app_def module_def name_def py_module_name_def ex_bad_world_eq)

lemma ex_bad_load_points:
  "load_all_points ex_pkg_bad (7::nat) ex_bad_world
     = (Inl SystemExit, emit (Call_load ''bad_ext'' 7) ex_bad_world)"
  by (simp add: load_all_points_def load_point_def load_def get_loader_def extension_points_def
        ex_pkg_bad_def app_def module_def name_def py_module_name_def ex_bad_world_eq)

lemma ex_enabled_sorted:
  "enabled_extensions self ex_enabled_world = [(''a_ext'', ex_pkg_a), (''b_ext'', ex_pkg_b)]"
  by (simp add: enabled_extensions_def ex_enabled_world_eq)

lemma ex_enabled_hooks_ok: "hooks_raise_Exception (7::nat) ex_enabled_world"
  by (simp add: hooks_raise_Exception_def package_hooks_ok_def point_hooks_ok_def hook_ok_def
        extension_points_def app_def module_def ex_enabled_world_eq ex_pkg_a_def ex_pkg_b_def)

lemma ex_load_a:
  "load_all_points ex_pkg_a (7::nat) w = (Inl (RaisedException ''boom''), emit (Call_load ''a_ext'' 7) w)"
  by (simp add: load_all_points_def load_point_def load_def get_loader_def extension_points_def
        ex_pkg_a_def app_def module_def name_def py_module_name_def)

lemma ex_load_b:
  "load_all_points ex_pkg_b (7::nat) w = (Inr (), emit (Call_load ''b_point'' 7) w)"
  by (simp add: load_all_points_def load_point_def load_def get_loader_def extension_points_def
        ex_pkg_b_def app_def module_def name_def py_module_name_def)

lemma enabled_extensions_emit [simp]:
  "enabled_extensions self (emit ev w) = enabled_extensions self w"
  by (simp add: enabled_extensions_def emit_def)

section \<open>Linking and loading all extensions\<close>

text \<open>A loop ends at the first element whose body raises, in the state reached there.\<close>

lemma for_each_abort:
  "for_each body pre w = (Inr (), w1) \<Longrightarrow> body x w1 = (Inl e, w2)
     \<Longrightarrow> for_each body (pre @ x # post) w = (Inl e, w2)"
proof (induction pre arbitrary: w)
  case Nil
  then show ?case by simp
next
  case (Cons a pre)
  obtain r w' where b: "body a w = (r, w')" by (cases "body a w")
  show ?case
  proof (cases r)
    case (Inl e')
    with b Cons.prems(1) show ?thesis by simp
  next
    case (Inr u)
    with b Cons.prems(1) have "for_each body pre w' = (Inr (), w1)" by simp
    from Cons.IH[OF this Cons.prems(2)] b Inr show ?thesis by simp
  qed
qed

lemma link_extension_result:
  "map_of (enabled_extensions self w) n = Some ext \<Longrightarrow> cls_linked_extensions w n \<noteq> Some True
     \<Longrightarrow> link_all_points ext serverapp w = (Inl e, w1)
     \<Longrightarrow> link_extension self serverapp n w =
           (if is_Exception e then (Inr (), emit (Log_warning self e) w1) else (Inl e, w1))"
  by (auto simp: link_extension_def split: option.splits)

lemma load_extension_result:
  "map_of (enabled_extensions self w) n = Some ext
     \<Longrightarrow> load_all_points ext serverapp w = (Inl e, w1)
     \<Longrightarrow> load_extension self serverapp n w =
           (if is_Exception e then (Inr (), emit (Log_warning self e) w1) else (Inl e, w1))"
  by (simp add: load_extension_def)

lemma ex_package_ab: "ExtensionPackage ex_env ''ab_ext'' w = (Inr ex_pkg_ab, w)"
  by (simp add: ExtensionPackage_def validate_name_def ExtensionPoint_def valid_metadata_def
        ex_env_def ex_metadata_def ex_import_def name_def app_def py_module_name_def ex_pkg_ab_def)

lemma ex_two_world_eq:
  "ex_two_world =
     initial_world\<lparr>cls_enabled_extensions := [(''b_ext'', ex_pkg_b), (''ab_ext'', ex_pkg_ab)]\<rparr>"
  by (simp add: ex_two_world_def from_jpserver_extensions_def add_extension_def
        ex_package_ab ex_package_b initial_world_def)

lemma ex_two_sorted:
  "enabled_extensions self ex_two_world = [(''ab_ext'', ex_pkg_ab), (''b_ext'', ex_pkg_b)]"
  by (simp add: enabled_extensions_def ex_two_world_eq)

lemma ex_two_hooks_ok: "hooks_raise_Exception (7::nat) ex_two_world"
  by (simp add: hooks_raise_Exception_def package_hooks_ok_def point_hooks_ok_def hook_ok_def
        extension_points_def app_def module_def ex_two_world_eq ex_pkg_ab_def ex_pkg_b_def)

lemma ex_load_ab:
  "load_all_points ex_pkg_ab (7::nat) w
     = (Inl (RaisedException ''boom''), emit (Call_load ''p1'' 7) w)"
  by (simp add: load_all_points_def load_point_def load_def get_loader_def extension_points_def
        ex_pkg_ab_def app_def module_def name_def py_module_name_def)

text \<open>
  C1, as amended. In every state (the enabled dictionary having distinct keys):

  \<^item> when the hooks of the enabled extensions, called with the given server application,
    return or raise instances of \<^verbatim>\<open>Exception\<close>, \<open>link_all_extensions\<close> and
    \<open>load_all_extensions\<close> return normally, and the loop runs \<open>link_extension\<close>, respectively
    \<open>load_extension\<close>, for every enabled name, whatever the earlier extensions did; an
    extension one of whose points raises gets the calls made up to that point and then one
    warning, nothing else;
  \<^item> the names are run in strictly ascending order, hence once each, and all the loops do
    to the state is to add trace entries (calls of hooks, log messages);
  \<^item> an exception out of \<open>link_all_points\<close> or \<open>load_all_points\<close> is logged as a warning when
    it is an instance of \<^verbatim>\<open>Exception\<close>, and raised to the caller otherwise;
  \<^item> within an extension the first point that raises ends \<open>link_all_points\<close> or
    \<open>load_all_points\<close> in the state reached there: the remaining points are not run;
  \<^item> the first extension for which \<open>link_extension\<close> or \<open>load_extension\<close> raises ends the
    loop over the extensions in the state reached there: the remaining extensions are not
    attempted.
\<close>

theorem all_extensions_attempted:
  "distinct (map fst (cls_enabled_extensions (w :: ('h, 'r) world))) \<Longrightarrow>
     (hooks_raise_Exception serverapp w \<longrightarrow>
        link_all_extensions self serverapp w
          = (Inr (), fold (\<lambda>n w'. snd (link_extension self serverapp n w'))
                       (map fst (enabled_extensions self w)) w) \<and>
        load_all_extensions self serverapp w
          = (Inr (), fold (\<lambda>n w'. snd (load_extension self serverapp n w'))
                       (map fst (enabled_extensions self w)) w) \<and>
        (\<forall>w' n extension ppre pn ppost w1 e w2.
           grows w w' \<and> map_of (enabled_extensions self w') n = Some extension \<and>
           cls_linked_extensions w' n \<noteq> Some True \<and>
           map fst (extension_points extension) = ppre @ pn # ppost \<and>
           for_each (link_point extension serverapp) ppre w' = (Inr (), w1) \<and>
           link_point extension serverapp pn w1 = (Inl e, w2) \<longrightarrow>
           link_extension self serverapp n w' = (Inr (), emit (Log_warning self e) w2)) \<and>
        (\<forall>w' n extension ppre pn ppost w1 e w2.
           grows w w' \<and> map_of (enabled_extensions self w') n = Some extension \<and>
           map fst (extension_points extension) = ppre @ pn # ppost \<and>
           for_each (load_point extension serverapp) ppre w' = (Inr (), w1) \<and>
           load_point extension serverapp pn w1 = (Inl e, w2) \<longrightarrow>
           load_extension self serverapp n w' = (Inr (), emit (Log_warning self e) w2))) \<and>
     sorted_wrt (<) (map fst (enabled_extensions self w)) \<and>
     set (map fst (enabled_extensions self w)) = fst ` set (cls_enabled_extensions w) \<and>
     grows w (snd (link_all_extensions self serverapp w)) \<and>
     grows w (snd (load_all_extensions self serverapp w)) \<and>
     (\<forall>(w' :: ('h, 'r) world) n extension e w1.
        map_of (enabled_extensions self w') n = Some extension \<and>
        cls_linked_extensions w' n \<noteq> Some True \<and>
        link_all_points extension serverapp w' = (Inl e, w1) \<longrightarrow>
        link_extension self serverapp n w' =
          (if is_Exception e then (Inr (), emit (Log_warning self e) w1) else (Inl e, w1))) \<and>
     (\<forall>(w' :: ('h, 'r) world) n extension e w1.
        map_of (enabled_extensions self w') n = Some extension \<and>
        load_all_points extension serverapp w' = (Inl e, w1) \<longrightarrow>
        load_extension self serverapp n w' =
          (if is_Exception e then (Inr (), emit (Log_warning self e) w1) else (Inl e, w1))) \<and>
     (\<forall>pkg ppre pn ppost (w0 :: ('h, 'r) world) w1 e w2.
        map fst (extension_points pkg) = ppre @ pn # ppost \<and>
        for_each (link_point pkg serverapp) ppre w0 = (Inr (), w1) \<and>
        link_point pkg serverapp pn w1 = (Inl e, w2) \<longrightarrow>
        link_all_points pkg serverapp w0 = (Inl e, w2)) \<and>
     (\<forall>pkg ppre pn ppost (w0 :: ('h, 'r) world) w1 e w2.
        map fst (extension_points pkg) = ppre @ pn # ppost \<and>
        for_each (load_point pkg serverapp) ppre w0 = (Inr (), w1) \<and>
        load_point pkg serverapp pn w1 = (Inl e, w2) \<longrightarrow>
        load_all_points pkg serverapp w0 = (Inl e, w2)) \<and>
     (\<forall>pre n post w1 e w2.
        map fst (enabled_extensions self w) = pre @ n # post \<and>
        for_each (link_extension self serverapp) pre w = (Inr (), w1) \<and>
        link_extension self serverapp n w1 = (Inl e, w2) \<longrightarrow>
        link_all_extensions self serverapp w = (Inl e, w2)) \<and>
     (\<forall>pre n post w1 e w2.
        map fst (enabled_extensions self w) = pre @ n # post \<and>
        for_each (load_extension self serverapp) pre w = (Inr (), w1) \<and>
        load_extension self serverapp n w1 = (Inl e, w2) \<longrightarrow>
        load_all_extensions self serverapp w = (Inl e, w2))"
proof -
  assume d: "distinct (map fst (cls_enabled_extensions w))"
  let ?I = "\<lambda>w'. grows w w'"
  let ?ns = "map fst (enabled_extensions self w)"
  have ks: "set ?ns = fst ` set (cls_enabled_extensions w)"
    by (simp add: enabled_extensions_def)
  have s: "sorted_wrt (<) ?ns"
    using d by (simp add: enabled_extensions_def strict_sorted_iff distinct_map_sort_key)
  note gl = grows_link_all_extensions[of w self serverapp]
  note gd = grows_load_all_extensions[of w self serverapp]
  have rl: "\<forall>pkg ppre pn ppost (w0 :: ('h, 'r) world) w1 e w2.
        map fst (extension_points pkg) = ppre @ pn # ppost \<and>
        for_each (link_point pkg serverapp) ppre w0 = (Inr (), w1) \<and>
        link_point pkg serverapp pn w1 = (Inl e, w2) \<longrightarrow>
        link_all_points pkg serverapp w0 = (Inl e, w2)"
    by (simp add: link_all_points_def for_each_abort)
  have rd: "\<forall>pkg ppre pn ppost (w0 :: ('h, 'r) world) w1 e w2.
        map fst (extension_points pkg) = ppre @ pn # ppost \<and>
        for_each (load_point pkg serverapp) ppre w0 = (Inr (), w1) \<and>
        load_point pkg serverapp pn w1 = (Inl e, w2) \<longrightarrow>
        load_all_points pkg serverapp w0 = (Inl e, w2)"
    by (simp add: load_all_points_def for_each_abort)
  have pl: "\<forall>pre n post w1 e w2.
        map fst (enabled_extensions self w) = pre @ n # post \<and>
        for_each (link_extension self serverapp) pre w = (Inr (), w1) \<and>
        link_extension self serverapp n w1 = (Inl e, w2) \<longrightarrow>
        link_all_extensions self serverapp w = (Inl e, w2)"
    by (simp add: link_all_extensions_def for_each_abort)
  have pd: "\<forall>pre n post w1 e w2.
        map fst (enabled_extensions self w) = pre @ n # post \<and>
        for_each (load_extension self serverapp) pre w = (Inr (), w1) \<and>
        load_extension self serverapp n w1 = (Inl e, w2) \<longrightarrow>
        load_all_extensions self serverapp w = (Inl e, w2)"
    by (simp add: load_all_extensions_def for_each_abort)
  have ql: "\<forall>(w' :: ('h, 'r) world) n extension e w1.
        map_of (enabled_extensions self w') n = Some extension \<and>
        cls_linked_extensions w' n \<noteq> Some True \<and>
        link_all_points extension serverapp w' = (Inl e, w1) \<longrightarrow>
        link_extension self serverapp n w' =
          (if is_Exception e then (Inr (), emit (Log_warning self e) w1) else (Inl e, w1))"
  proof (intro allI impI)
    fix w' :: "('h, 'r) world" and n extension e w1
    assume h: "map_of (enabled_extensions self w') n = Some extension \<and>
        cls_linked_extensions w' n \<noteq> Some True \<and>
        link_all_points extension serverapp w' = (Inl e, w1)"
    show "link_extension self serverapp n w' =
          (if is_Exception e then (Inr (), emit (Log_warning self e) w1) else (Inl e, w1))"
      by (rule link_extension_result[OF h[THEN conjunct1] h[THEN conjunct2, THEN conjunct1]
            h[THEN conjunct2, THEN conjunct2]])
  qed
  have qd: "\<forall>(w' :: ('h, 'r) world) n extension e w1.
        map_of (enabled_extensions self w') n = Some extension \<and>
        load_all_points extension serverapp w' = (Inl e, w1) \<longrightarrow>
        load_extension self serverapp n w' =
          (if is_Exception e then (Inr (), emit (Log_warning self e) w1) else (Inl e, w1))"
  proof (intro allI impI)
    fix w' :: "('h, 'r) world" and n extension e w1
    assume h: "map_of (enabled_extensions self w') n = Some extension \<and>
        load_all_points extension serverapp w' = (Inl e, w1)"
    show "load_extension self serverapp n w' =
          (if is_Exception e then (Inr (), emit (Log_warning self e) w1) else (Inl e, w1))"
      by (rule load_extension_result[OF h[THEN conjunct1] h[THEN conjunct2]])
  qed
  have A: "hooks_raise_Exception serverapp w \<longrightarrow>
        link_all_extensions self serverapp w
          = (Inr (), fold (\<lambda>n w'. snd (link_extension self serverapp n w')) ?ns w) \<and>
        load_all_extensions self serverapp w
          = (Inr (), fold (\<lambda>n w'. snd (load_extension self serverapp n w')) ?ns w) \<and>
        (\<forall>w' n extension ppre pn ppost w1 e w2.
           grows w w' \<and> map_of (enabled_extensions self w') n = Some extension \<and>
           cls_linked_extensions w' n \<noteq> Some True \<and>
           map fst (extension_points extension) = ppre @ pn # ppost \<and>
           for_each (link_point extension serverapp) ppre w' = (Inr (), w1) \<and>
           link_point extension serverapp pn w1 = (Inl e, w2) \<longrightarrow>
           link_extension self serverapp n w' = (Inr (), emit (Log_warning self e) w2)) \<and>
        (\<forall>w' n extension ppre pn ppost w1 e w2.
           grows w w' \<and> map_of (enabled_extensions self w') n = Some extension \<and>
           map fst (extension_points extension) = ppre @ pn # ppost \<and>
           for_each (load_point extension serverapp) ppre w' = (Inr (), w1) \<and>
           load_point extension serverapp pn w1 = (Inl e, w2) \<longrightarrow>
           load_extension self serverapp n w' = (Inr (), emit (Log_warning self e) w2))"
  proof
    assume ok: "hooks_raise_Exception serverapp w"
    have a: "for_each (link_extension self serverapp) ?ns w
               = (Inr (), fold (\<lambda>n w'. snd (link_extension self serverapp n w')) ?ns w)"
    proof (rule for_each_total[where I = ?I])
      show "grows w w" by (rule grows_refl)
    next
      fix x w'
      assume x: "x \<in> set ?ns" and g: "grows w w'"
      from x ks g have "x \<in> fst ` set (cls_enabled_extensions w')" by (simp add: grows_fields)
      then have "fst (link_extension self serverapp x w') = Inr ()"
        using grows_hooks_ok[OF g ok] by (simp add: link_extension_returns)
      moreover have "grows w (snd (link_extension self serverapp x w'))"
        using g grows_link_extension by (rule grows_trans)
      ultimately show "fst (link_extension self serverapp x w') = Inr () \<and>
         grows w (snd (link_extension self serverapp x w'))" by (rule conjI)
    qed
    have b: "for_each (load_extension self serverapp) ?ns w
               = (Inr (), fold (\<lambda>n w'. snd (load_extension self serverapp n w')) ?ns w)"
    proof (rule for_each_total[where I = ?I])
      show "grows w w" by (rule grows_refl)
    next
      fix x w'
      assume x: "x \<in> set ?ns" and g: "grows w w'"
      have "fst (load_extension self serverapp x w') = Inr ()"
        using grows_hooks_ok[OF g ok] by (rule load_extension_returns)
      moreover have "grows w (snd (load_extension self serverapp x w'))"
        using g grows_load_extension by (rule grows_trans)
      ultimately show "fst (load_extension self serverapp x w') = Inr () \<and>
         grows w (snd (load_extension self serverapp x w'))" by (rule conjI)
    qed
    have la: "link_all_extensions self serverapp w
         = (Inr (), fold (\<lambda>n w'. snd (link_extension self serverapp n w')) ?ns w)"
      using a by (simp add: link_all_extensions_def)
    have lb: "load_all_extensions self serverapp w
         = (Inr (), fold (\<lambda>n w'. snd (load_extension self serverapp n w')) ?ns w)"
      using b by (simp add: load_all_extensions_def)
    have fl: "\<forall>w' n extension ppre pn ppost w1 e w2.
           grows w w' \<and> map_of (enabled_extensions self w') n = Some extension \<and>
           cls_linked_extensions w' n \<noteq> Some True \<and>
           map fst (extension_points extension) = ppre @ pn # ppost \<and>
           for_each (link_point extension serverapp) ppre w' = (Inr (), w1) \<and>
           link_point extension serverapp pn w1 = (Inl e, w2) \<longrightarrow>
           link_extension self serverapp n w' = (Inr (), emit (Log_warning self e) w2)"
    proof (intro allI impI, elim conjE)
      fix w' n extension ppre pn ppost w1 e w2
      assume g: "grows w w'" and m: "map_of (enabled_extensions self w') n = Some extension"
        and nl: "cls_linked_extensions w' n \<noteq> Some True"
        and ps: "map fst (extension_points extension) = ppre @ pn # ppost"
        and f1: "for_each (link_point extension serverapp) ppre w' = (Inr (), w1)"
        and f2: "link_point extension serverapp pn w1 = (Inl e, w2)"
      have ok': "hooks_raise_Exception serverapp w'" using g ok by (rule grows_hooks_ok)
      have l: "link_all_points extension serverapp w' = (Inl e, w2)"
        using for_each_abort[OF f1 f2, of ppost] ps by (simp add: link_all_points_def)
      show "link_extension self serverapp n w' = (Inr (), emit (Log_warning self e) w2)"
        using ok' m nl l by (rule link_extension_failure)
    qed
    have fd: "\<forall>w' n extension ppre pn ppost w1 e w2.
           grows w w' \<and> map_of (enabled_extensions self w') n = Some extension \<and>
           map fst (extension_points extension) = ppre @ pn # ppost \<and>
           for_each (load_point extension serverapp) ppre w' = (Inr (), w1) \<and>
           load_point extension serverapp pn w1 = (Inl e, w2) \<longrightarrow>
           load_extension self serverapp n w' = (Inr (), emit (Log_warning self e) w2)"
    proof (intro allI impI, elim conjE)
      fix w' n extension ppre pn ppost w1 e w2
      assume g: "grows w w'" and m: "map_of (enabled_extensions self w') n = Some extension"
        and ps: "map fst (extension_points extension) = ppre @ pn # ppost"
        and f1: "for_each (load_point extension serverapp) ppre w' = (Inr (), w1)"
        and f2: "load_point extension serverapp pn w1 = (Inl e, w2)"
      have ok': "hooks_raise_Exception serverapp w'" using g ok by (rule grows_hooks_ok)
      have l: "load_all_points extension serverapp w' = (Inl e, w2)"
        using for_each_abort[OF f1 f2, of ppost] ps by (simp add: load_all_points_def)
      show "load_extension self serverapp n w' = (Inr (), emit (Log_warning self e) w2)"
        using ok' m l by (rule load_extension_failure)
    qed
    show "link_all_extensions self serverapp w
          = (Inr (), fold (\<lambda>n w'. snd (link_extension self serverapp n w')) ?ns w) \<and>
        load_all_extensions self serverapp w
          = (Inr (), fold (\<lambda>n w'. snd (load_extension self serverapp n w')) ?ns w) \<and>
        (\<forall>w' n extension ppre pn ppost w1 e w2.
           grows w w' \<and> map_of (enabled_extensions self w') n = Some extension \<and>
           cls_linked_extensions w' n \<noteq> Some True \<and>
           map fst (extension_points extension) = ppre @ pn # ppost \<and>
           for_each (link_point extension serverapp) ppre w' = (Inr (), w1) \<and>
           link_point extension serverapp pn w1 = (Inl e, w2) \<longrightarrow>
           link_extension self serverapp n w' = (Inr (), emit (Log_warning self e) w2)) \<and>
        (\<forall>w' n extension ppre pn ppost w1 e w2.
           grows w w' \<and> map_of (enabled_extensions self w') n = Some extension \<and>
           map fst (extension_points extension) = ppre @ pn # ppost \<and>
           for_each (load_point extension serverapp) ppre w' = (Inr (), w1) \<and>
           load_point extension serverapp pn w1 = (Inl e, w2) \<longrightarrow>
           load_extension self serverapp n w' = (Inr (), emit (Log_warning self e) w2))"
      by (rule conjI[OF la conjI[OF lb conjI[OF fl fd]]])
  qed
  show ?thesis
    by (rule conjI[OF A conjI[OF s conjI[OF ks conjI[OF gl conjI[OF gd conjI[OF ql conjI[OF qd
          conjI[OF rl conjI[OF rd conjI[OF pl pd]]]]]]]]]])
qed

theorem all_extensions_attempted_witness:
  "distinct (map fst (cls_enabled_extensions ex_two_world)) \<and>
   hooks_raise_Exception (7::nat) ex_two_world \<and>
   map fst (extension_points ex_pkg_ab) = [''p1'', ''p2''] \<and>
   load_all_extensions 0 (7::nat) ex_two_world
     = (Inr (), emit (Call_load ''b_point'' 7)
                  (emit (Log_warning 0 (RaisedException ''boom''))
                     (emit (Call_load ''p1'' 7) ex_two_world)))"
proof -
  have d: "distinct (map fst (cls_enabled_extensions ex_two_world))"
    by (simp add: ex_two_world_eq)
  have ps: "map fst (extension_points ex_pkg_ab) = [''p1'', ''p2'']"
    by (simp add: extension_points_def ex_pkg_ab_def)
  have f: "fold (\<lambda>n w'. snd (load_extension 0 (7::nat) n w'))
             (map fst (enabled_extensions 0 ex_two_world)) ex_two_world
           = emit (Call_load ''b_point'' 7)
               (emit (Log_warning 0 (RaisedException ''boom''))
                  (emit (Call_load ''p1'' 7) ex_two_world))"
    by (simp add: ex_two_sorted load_extension_def ex_load_ab ex_load_b)
  note th = all_extensions_attempted[OF d, of 7 0, THEN conjunct1, rule_format, OF ex_two_hooks_ok]
  have "load_all_extensions 0 (7::nat) ex_two_world
          = (Inr (), fold (\<lambda>n w'. snd (load_extension 0 (7::nat) n w'))
                       (map fst (enabled_extensions 0 ex_two_world)) ex_two_world)"
    by (rule th[THEN conjunct2, THEN conjunct1])
  with f d ex_two_hooks_ok ps show ?thesis by simp
qed

text \<open>
  C1 as stated, for every hook that raises, does not hold: a hook that raises
  \<^verbatim>\<open>SystemExit\<close> is not caught by \<^verbatim>\<open>except Exception\<close>. With \<open>bad_ext\<close> and \<open>pkgX\<close>
  enabled, both loops end with that exception at \<open>bad_ext\<close>, and \<open>pkgX\<close> is not attempted.
\<close>

theorem all_extensions_attempted_counterexample:
  "map fst (enabled_extensions 0 ex_bad_world) = [''bad_ext'', ''pkgX''] \<and>
   link_all_extensions 0 (7::nat) ex_bad_world
     = (Inl SystemExit, emit (Call_link ''bad_ext'' 7) ex_bad_world) \<and>
   load_all_extensions 0 (7::nat) ex_bad_world
     = (Inl SystemExit, emit (Call_load ''bad_ext'' 7) ex_bad_world)"
  by (simp add: link_all_extensions_def load_all_extensions_def link_extension_def
        load_extension_def ex_bad_sorted ex_bad_link_points ex_bad_load_points)
     (simp add: ex_bad_world_eq)

section \<open>Loading one extension\<close>

lemma load_raises_Exception_load_ok:
  "point_load_ok serverapp p \<Longrightarrow> fst (load p serverapp w) = Inl e \<Longrightarrow> is_Exception e"
  by (auto simp: load_def get_loader_def point_load_ok_def hook_ok_def
           split: option.splits sum.splits)

lemma load_point_raises_Exception_load_ok:
  assumes ok: "package_load_ok serverapp pkg" and f: "fst (load_point pkg serverapp pn w) = Inl e"
  shows "is_Exception e"
proof (cases "map_of (extension_points pkg) pn")
  case None
  with f show ?thesis by (auto simp: load_point_def)
next
  case (Some point)
  from Some have "(pn, point) \<in> set (extension_points pkg)" by (rule map_of_SomeD)
  with ok have pok: "point_load_ok serverapp point"
    by (auto simp: package_load_ok_def list_all_iff)
  obtain r w1 where l: "load point serverapp w = (r, w1)" by (cases "load point serverapp w")
  with Some f have "r = Inl e" by (cases r) (auto simp: load_point_def)
  with l load_raises_Exception_load_ok[OF pok, of w e] show ?thesis by simp
qed

lemma load_all_points_raises_Exception_load_ok:
  "package_load_ok serverapp pkg \<Longrightarrow> fst (load_all_points pkg serverapp w) = Inl e
     \<Longrightarrow> is_Exception e"
  unfolding load_all_points_def
  by (rule for_each_err[where Q = is_Exception and body = "load_point pkg serverapp"])
     (auto intro: load_point_raises_Exception_load_ok)

lemma ex_package_half: "ExtensionPackage ex_env ''half_ext'' w = (Inr ex_pkg_half, w)"
  by (simp add: ExtensionPackage_def validate_name_def ExtensionPoint_def valid_metadata_def
        ex_env_def ex_metadata_def ex_import_def name_def app_def py_module_name_def
        ex_pkg_half_def)

lemma ex_half_world_eq:
  "ex_half_world = initial_world\<lparr>cls_enabled_extensions := [(''half_ext'', ex_pkg_half)]\<rparr>"
  by (simp add: ex_half_world_def add_extension_def ex_package_half initial_world_def)

lemma ex_load_half:
  "load_all_points ex_pkg_half (7::nat) w = (Inr (), emit (Call_load ''half_ext'' 7) w)"
  by (simp add: load_all_points_def load_point_def load_def get_loader_def extension_points_def
        ex_pkg_half_def app_def module_def name_def py_module_name_def)

text \<open>
  C9, as amended. For every name and every state:

  \<^item> for a name that is not enabled the lookup gives \<^verbatim>\<open>None\<close>; the \<^verbatim>\<open>AttributeError\<close> of
    \<^verbatim>\<open>None.load_all_points\<close> is caught and logged as a warning, and \<open>load_extension\<close>
    returns normally;
  \<^item> for an enabled name, an exception out of \<open>load_all_points\<close> is caught and logged as a
    warning when it is an instance of \<^verbatim>\<open>Exception\<close>, and raised to the caller otherwise;
    the exception is that of the first point of the extension whose \<open>load_point\<close> raises;
    without an exception nothing is logged;
  \<^item> hence \<open>load_extension\<close> returns normally whenever the load hooks of the extension
    named, called with the given server application, return or raise instances of
    \<^verbatim>\<open>Exception\<close> (the link hooks, and the other extensions, do not matter);
  \<^item> all it does to the state is to add trace entries.
\<close>

theorem load_extension_catches:
  "(n \<notin> fst ` set (cls_enabled_extensions w) \<longrightarrow>
      load_extension self serverapp n w
        = (Inr (), emit (Log_warning self (AttributeError ''load_all_points'')) w)) \<and>
   (\<forall>extension e w1.
      map_of (enabled_extensions self w) n = Some extension \<and>
      load_all_points extension serverapp w = (Inl e, w1) \<longrightarrow>
      load_extension self serverapp n w =
        (if is_Exception e then (Inr (), emit (Log_warning self e) w1) else (Inl e, w1))) \<and>
   (\<forall>extension u w1.
      map_of (enabled_extensions self w) n = Some extension \<and>
      load_all_points extension serverapp w = (Inr u, w1) \<longrightarrow>
      load_extension self serverapp n w = (Inr (), w1)) \<and>
   (\<forall>extension ppre pn ppost w1 e w2.
      map_of (enabled_extensions self w) n = Some extension \<and>
      map fst (extension_points extension) = ppre @ pn # ppost \<and>
      for_each (load_point extension serverapp) ppre w = (Inr (), w1) \<and>
      load_point extension serverapp pn w1 = (Inl e, w2) \<longrightarrow>
      load_all_points extension serverapp w = (Inl e, w2)) \<and>
   ((\<forall>extension. map_of (enabled_extensions self w) n = Some extension \<longrightarrow>
        package_load_ok serverapp extension) \<longrightarrow>
      fst (load_extension self serverapp n w) = Inr ()) \<and>
   grows w (snd (load_extension self serverapp n w))"
proof -
  have a: "n \<notin> fst ` set (cls_enabled_extensions w) \<longrightarrow>
      load_extension self serverapp n w
        = (Inr (), emit (Log_warning self (AttributeError ''load_all_points'')) w)"
  proof
    assume "n \<notin> fst ` set (cls_enabled_extensions w)"
    then have "n \<notin> fst ` set (enabled_extensions self w)"
      by (simp add: enabled_extensions_def)
    then have "map_of (enabled_extensions self w) n = None" by (simp add: map_of_eq_None_iff)
    then show "load_extension self serverapp n w
        = (Inr (), emit (Log_warning self (AttributeError ''load_all_points'')) w)"
      by (simp add: load_extension_def)
  qed
  have b: "\<forall>extension e w1.
      map_of (enabled_extensions self w) n = Some extension \<and>
      load_all_points extension serverapp w = (Inl e, w1) \<longrightarrow>
      load_extension self serverapp n w =
        (if is_Exception e then (Inr (), emit (Log_warning self e) w1) else (Inl e, w1))"
    by (simp add: load_extension_def)
  have c: "\<forall>extension u w1.
      map_of (enabled_extensions self w) n = Some extension \<and>
      load_all_points extension serverapp w = (Inr u, w1) \<longrightarrow>
      load_extension self serverapp n w = (Inr (), w1)"
    by (simp add: load_extension_def)
  have d: "\<forall>extension ppre pn ppost w1 e w2.
      map_of (enabled_extensions self w) n = Some extension \<and>
      map fst (extension_points extension) = ppre @ pn # ppost \<and>
      for_each (load_point extension serverapp) ppre w = (Inr (), w1) \<and>
      load_point extension serverapp pn w1 = (Inl e, w2) \<longrightarrow>
      load_all_points extension serverapp w = (Inl e, w2)"
    by (simp add: load_all_points_def for_each_abort)
  have e: "(\<forall>extension. map_of (enabled_extensions self w) n = Some extension \<longrightarrow>
        package_load_ok serverapp extension) \<longrightarrow>
      fst (load_extension self serverapp n w) = Inr ()"
  proof
    assume ok: "\<forall>extension. map_of (enabled_extensions self w) n = Some extension \<longrightarrow>
        package_load_ok serverapp extension"
    show "fst (load_extension self serverapp n w) = Inr ()"
    proof (cases "map_of (enabled_extensions self w) n")
      case None
      then show ?thesis by (simp add: load_extension_def)
    next
      case (Some ext)
      with ok have pok: "package_load_ok serverapp ext" by simp
      obtain r w1 where l: "load_all_points ext serverapp w = (r, w1)"
        by (cases "load_all_points ext serverapp w")
      show ?thesis
      proof (cases r)
        case (Inl x)
        with l load_all_points_raises_Exception_load_ok[OF pok, of w x]
        have "is_Exception x" by simp
        with Some l Inl show ?thesis by (simp add: load_extension_def)
      next
        case (Inr u)
        with Some l show ?thesis by (simp add: load_extension_def)
      qed
    qed
  qed
  note g = grows_load_extension[of w self serverapp n]
  show ?thesis by (rule conjI[OF a conjI[OF b conjI[OF c conjI[OF d conjI[OF e g]]]]])
qed

theorem load_extension_catches_witness:
  "''c_ext'' \<notin> fst ` set (cls_enabled_extensions ex_half_world) \<and>
   load_extension 0 (7::nat) ''c_ext'' ex_half_world
     = (Inr (), emit (Log_warning 0 (AttributeError ''load_all_points'')) ex_half_world) \<and>
   map_of (enabled_extensions 0 ex_half_world) ''half_ext'' = Some ex_pkg_half \<and>
   package_load_ok (7::nat) ex_pkg_half \<and> \<not> hooks_raise_Exception (7::nat) ex_half_world \<and>
   load_extension 0 (7::nat) ''half_ext'' ex_half_world
     = (Inr (), emit (Call_load ''half_ext'' 7) ex_half_world) \<and>
   load_extension 0 (7::nat) ''a_ext'' ex_enabled_world
     = (Inr (), emit (Log_warning 0 (RaisedException ''boom''))
                  (emit (Call_load ''a_ext'' 7) ex_enabled_world))"
proof -
  have n: "''c_ext'' \<notin> fst ` set (cls_enabled_extensions ex_half_world)"
    by (simp add: ex_half_world_eq)
  have m: "map_of (enabled_extensions 0 ex_half_world) ''half_ext'' = Some ex_pkg_half"
    by (simp add: enabled_extensions_def ex_half_world_eq)
  have pok: "package_load_ok (7::nat) ex_pkg_half"
    by (simp add: package_load_ok_def point_load_ok_def hook_ok_def extension_points_def
          ex_pkg_half_def app_def module_def)
  have nok: "\<not> hooks_raise_Exception (7::nat) ex_half_world"
    by (simp add: hooks_raise_Exception_def package_hooks_ok_def point_hooks_ok_def hook_ok_def
          extension_points_def ex_pkg_half_def app_def module_def ex_half_world_eq)
  have ma: "map_of (enabled_extensions 0 ex_enabled_world) ''a_ext'' = Some ex_pkg_a"
    by (simp add: ex_enabled_sorted)
  note t1 = load_extension_catches[of "''c_ext''" ex_half_world 0 7]
  note t2 = load_extension_catches[of "''half_ext''" ex_half_world 0 7]
  note t3 = load_extension_catches[of "''a_ext''" ex_enabled_world 0 7]
  have a: "load_extension 0 (7::nat) ''c_ext'' ex_half_world
     = (Inr (), emit (Log_warning 0 (AttributeError ''load_all_points'')) ex_half_world)"
    by (rule t1[THEN conjunct1, rule_format, OF n])
  have b: "load_extension 0 (7::nat) ''half_ext'' ex_half_world
     = (Inr (), emit (Call_load ''half_ext'' 7) ex_half_world)"
    by (rule t2[THEN conjunct2, THEN conjunct2, THEN conjunct1, rule_format,
                OF conjI[OF m ex_load_half]])
  have c: "load_extension 0 (7::nat) ''a_ext'' ex_enabled_world
     = (if is_Exception (RaisedException ''boom'')
        then (Inr (), emit (Log_warning 0 (RaisedException ''boom''))
                  (emit (Call_load ''a_ext'' 7) ex_enabled_world))
        else (Inl (RaisedException ''boom''), emit (Call_load ''a_ext'' 7) ex_enabled_world))"
    by (rule t3[THEN conjunct2, THEN conjunct1, rule_format, OF conjI[OF ma ex_load_a]])
  then have c': "load_extension 0 (7::nat) ''a_ext'' ex_enabled_world
     = (Inr (), emit (Log_warning 0 (RaisedException ''boom''))
                  (emit (Call_load ''a_ext'' 7) ex_enabled_world))"
    by simp
  show ?thesis
    by (rule conjI[OF n conjI[OF a conjI[OF m conjI[OF pok conjI[OF nok conjI[OF b c']]]]]])
qed

text \<open>
  C9 as stated, for any exception, does not hold: \<^verbatim>\<open>SystemExit\<close> raised by the load hook of
  \<open>bad_ext\<close> passes the \<^verbatim>\<open>except Exception\<close> clause and reaches the caller, unlogged.
\<close>

theorem load_extension_catches_counterexample:
  "load_extension 0 (7::nat) ''bad_ext'' ex_bad_world
     = (Inl SystemExit, emit (Call_load ''bad_ext'' 7) ex_bad_world)"
  by (simp add: load_extension_def ex_bad_sorted ex_bad_load_points)

section \<open>The application factory\<close>





end
